theory Spec2Isabelle
  imports Main
begin

section \<open>Data model\<close>

text \<open>
  The camera page keeps a list of event records in memory (\<open>events\<close>) and mirrors it
  under one key of the browser's \<open>localStorage\<close>. An event is the object literal built by
  the click handler of the event button. Its \<open>id\<close> is the value of \<open>Date.now()\<close>, an
  integer number of milliseconds; the field is called \<open>event_id\<close> here because \<open>id\<close> is
  the identity function of HOL.
\<close>

record event =
  event_id :: int
  timestamp :: string
  formattedTime :: string
  cameraName :: string
  imageData :: string

text \<open>The reduced copy of an event that \<open>sendToDashboard\<close> builds.\<close>

record dashboard_event =
  dashboard_id :: int
  dashboard_timestamp :: string
  dashboard_cameraName :: string
  dashboard_imageData :: string

datatype js_error = SyntaxError | TypeError | QuotaExceededError

subsection \<open>JSON text and web storage\<close>

text \<open>
  The program serialises two shapes of value: the array of events and the single dashboard
  event. A stored text is represented by what it denotes: \<open>Serialized v\<close> is a JSON text
  of the value \<open>v\<close>, and \<open>Malformed s\<close> is the text \<open>s\<close>, which is not JSON (the empty
  string is one such text). \<open>JSON.stringify\<close> and \<open>JSON.parse\<close> are browser built-ins; in
  this representation parsing what was serialised gives the value back, and parsing other
  text throws \<open>SyntaxError\<close>. JSON texts of other shapes (an array whose elements are not
  event objects, a number) are not represented.

  A storage area has limited room. How much fits is the browser's affair, so the room of
  an area is a predicate on its contents: \<open>setItem\<close> makes the write when the contents
  it would leave fit, and throws \<open>QuotaExceededError\<close> otherwise, leaving the area as it
  was.
\<close>

datatype json = JsEvents "event list" | JsDashboardEvent dashboard_event

datatype stored_text = Serialized json | Malformed string

definition JSON_stringify :: "json \<Rightarrow> stored_text" where
  "JSON_stringify v = Serialized v"

fun JSON_parse :: "stored_text \<Rightarrow> js_error + json" where
  "JSON_parse (Serialized v) = Inr v"
| "JSON_parse (Malformed s) = Inl SyntaxError"

text \<open>Truthiness of a string: every string but the empty one.\<close>

fun truthy :: "stored_text \<Rightarrow> bool" where
  "truthy (Serialized v) = True"
| "truthy (Malformed s) = (s \<noteq> [])"

type_synonym storage = "string \<rightharpoonup> stored_text"

definition getItem :: "storage \<Rightarrow> string \<Rightarrow> stored_text option" where
  "getItem st k = st k"

definition setItem ::
  "(storage \<Rightarrow> bool) \<Rightarrow> storage \<Rightarrow> string \<Rightarrow> stored_text \<Rightarrow> js_error + storage" where
  "setItem room st k v =
     (if room (st(k \<mapsto> v)) then Inr (st(k \<mapsto> v)) else Inl QuotaExceededError)"

definition CAMERA_NAME :: string where
  "CAMERA_NAME = ''Camera 1''"

definition DASHBOARD_URL :: string where
  "DASHBOARD_URL = ''https://shreyanssatpute.github.io/dashboard/''"

definition LOCAL_STORAGE_KEY :: string where
  "LOCAL_STORAGE_KEY = ''camera_events''"

subsection \<open>Numbers as attribute text\<close>

text \<open>
  \<open>historyItem.dataset.id = event.id\<close> stores the decimal rendering of the number, and
  \<open>parseInt(item.dataset.id)\<close> reads it back. \<open>Number_toString\<close> renders an integer as
  JavaScript does: in plain decimal digits below a magnitude of \<open>10^21\<close> (every clock
  reading is far below), and from there on in exponent form, such as \<open>1e+21\<close> or
  \<open>1.5e+21\<close>. In exponent form the digits after the point are here those of the integer
  without its final zeros; JavaScript prints at most seventeen significant digits there,
  and holds integers exactly only up to \<open>2^53\<close>, which every clock reading is below.
  \<open>parseInt\<close> skips leading white space, takes an optional sign and the longest prefix of
  decimal digits, so it stops at the point or the \<open>e\<close>; \<open>None\<close> is \<open>NaN\<close>. The
  hexadecimal form (\<open>0x\<close> prefix) is left out: no rendering of a number starts that way.
\<close>

definition digit_char :: "nat \<Rightarrow> char" where
  "digit_char d = char_of (48 + d)"

fun digits :: "nat \<Rightarrow> string" where
  "digits n = (if n < 10 then [digit_char n] else digits (n div 10) @ [digit_char (n mod 10)])"

declare digits.simps [simp del]

definition strip_zeros :: "string \<Rightarrow> string" where
  "strip_zeros ds = rev (dropWhile (\<lambda>c. c = CHR ''0'') (rev ds))"

definition exponential :: "nat \<Rightarrow> string" where
  "exponential n =
     (case digits n of
        [] \<Rightarrow> []
      | d # ds \<Rightarrow>
          d # (if strip_zeros ds = [] then [] else CHR ''.'' # strip_zeros ds)
            @ ''e+'' @ digits (length ds))"

definition Number_toString :: "int \<Rightarrow> string" where
  "Number_toString i =
     (let n = nat \<bar>i\<bar>;
          body = (if n < 10 ^ 21 then digits n else exponential n)
      in if i < 0 then CHR ''-'' # body else body)"

definition is_digit :: "char \<Rightarrow> bool" where
  "is_digit c = (48 \<le> (of_char c :: nat) \<and> (of_char c :: nat) \<le> 57)"

definition digit_value :: "char \<Rightarrow> nat" where
  "digit_value c = of_char c - 48"

definition is_space :: "char \<Rightarrow> bool" where
  "is_space c = (c = CHR '' '' \<or> c = CHR 0x09 \<or> c = CHR 0x0A \<or> c = CHR 0x0B
     \<or> c = CHR 0x0C \<or> c = CHR 0x0D)"

definition digits_value :: "string \<Rightarrow> nat" where
  "digits_value ds = foldl (\<lambda>a c. 10 * a + digit_value c) 0 ds"

definition parse_unsigned :: "string \<Rightarrow> nat option" where
  "parse_unsigned s =
     (let ds = takeWhile is_digit s in if ds = [] then None else Some (digits_value ds))"

definition parseInt :: "string \<Rightarrow> int option" where
  "parseInt s =
     (case dropWhile is_space s of
        [] \<Rightarrow> None
      | c # r \<Rightarrow>
          if c = CHR ''-'' then map_option (\<lambda>n. - int n) (parse_unsigned r)
          else if c = CHR ''+'' then map_option int (parse_unsigned r)
          else map_option int (parse_unsigned (c # r)))"

section \<open>The page\<close>

text \<open>
  A history item is the \<open>div\<close> that \<open>addEventToHistory\<close> creates. \<open>node\<close> is the identity of
  the DOM element. The inline style is kept as far as the program writes it: the
  transition (\<open>'none'\<close> while dragging, \<open>'transform 0.3s ease'\<close> after), the transform, and
  \<open>collapsed\<close> for the final \<open>height = '0'\<close>, \<open>marginBottom = '0'\<close>, \<open>opacity = '0'\<close> of the
  removal animation. \<open>delete_ready\<close> is the class of that name. \<open>dataset_id\<close> is
  \<open>None\<close> where the attribute was never set (the variant of the page without swiping).
  \<open>swipe_handlers\<close> counts the swipe recognizers whose listeners are registered on the
  element.
\<close>

datatype transition = TransitionUnset | TransitionNone | TransitionTransformEase

datatype transform = TransformUnset | TranslateX_px int | TranslateX_zero | TranslateX_minus100pct

record item =
  node :: nat
  dataset_id :: "string option"
  img_src :: string
  img_alt :: string
  timestamp_text :: string
  camera_text :: string
  delete_indicator :: bool
  style_transition :: transition
  style_transform :: transform
  collapsed :: bool
  delete_ready :: bool
  swipe_handlers :: nat

datatype media_stream = MediaStream

datatype timer = HideNotification | RemoveItem nat

text \<open>
  The state of the page: the two module variables \<open>stream\<close> and \<open>events\<close>, the two web
  storages with their room, the children of the history container (first child first), the
  clock text, the notification toast, the pending \<open>setTimeout\<close> callbacks with their
  delays in milliseconds, whether the clock interval has been started, and the URLs given
  to \<open>window.open\<close>. \<open>created\<close> counts the elements created so far and names the next
  one. \<open>uncaught\<close> lists the exceptions that no handler caught: the browser reports them
  and the listener they left has ended where they were thrown.
\<close>

record page =
  stream :: "media_stream option"
  events :: "event list"
  localStorage :: storage
  localQuota :: "storage \<Rightarrow> bool"
  sessionStorage :: storage
  sessionQuota :: "storage \<Rightarrow> bool"
  history :: "item list"
  created :: nat
  currentTime :: string
  notification_text :: string
  notification_error :: bool
  notification_shown :: bool
  timers :: "(nat \<times> timer) list"
  clock_interval :: bool
  opened :: "string list"
  uncaught :: "js_error list"

text \<open>
  The page as the script finds it when it is loaded over a given storage, here with room
  for every write; a page over smaller storage areas is this one with \<open>localQuota\<close> or
  \<open>sessionQuota\<close> set.
\<close>

definition initial_page :: "storage \<Rightarrow> storage \<Rightarrow> page" where
  "initial_page ls ss =
     \<lparr> stream = None, events = [], localStorage = ls, localQuota = (\<lambda>st. True),
       sessionStorage = ss, sessionQuota = (\<lambda>st. True), history = [],
       created = 0, currentTime = [], notification_text = [], notification_error = False,
       notification_shown = False, timers = [], clock_interval = False, opened = [],
       uncaught = [] \<rparr>"

definition uncaught_exception :: "js_error \<Rightarrow> page \<Rightarrow> page" where
  "uncaught_exception err pg = pg\<lparr>uncaught := uncaught pg @ [err]\<rparr>"

definition setTimeout :: "timer \<Rightarrow> nat \<Rightarrow> page \<Rightarrow> page" where
  "setTimeout cb ms pg = pg\<lparr>timers := timers pg @ [(ms, cb)]\<rparr>"

definition showNotification :: "string \<Rightarrow> bool \<Rightarrow> page \<Rightarrow> page" where
  "showNotification message isError pg =
     setTimeout HideNotification 3000
       (pg\<lparr>notification_text := message, notification_error := isError,
            notification_shown := True\<rparr>)"

definition updateCurrentTime :: "string \<Rightarrow> page \<Rightarrow> page" where
  "updateCurrentTime now pg = pg\<lparr>currentTime := now\<rparr>"

text \<open>The two outcomes of \<open>getUserMedia\<close> in \<open>initCamera\<close>, which arrive after the load handler.\<close>

definition initCamera_resolved :: "page \<Rightarrow> page" where
  "initCamera_resolved pg =
     showNotification ''Camera connected successfully'' False (pg\<lparr>stream := Some MediaStream\<rparr>)"

definition initCamera_rejected :: "page \<Rightarrow> page" where
  "initCamera_rejected pg =
     showNotification ''Error accessing camera. Please check permissions.'' True pg"

text \<open>
  \<open>saveEvent\<close> pushes the event and then writes the list. A function that can throw after
  changing the page returns the exception, if any, with the page it leaves: when the write
  throws, the event is in the list in memory and the storage is as it was.
\<close>

definition saveEvent :: "event \<Rightarrow> page \<Rightarrow> js_error option \<times> page" where
  "saveEvent ev pg =
     (let pushed = pg\<lparr>events := events pg @ [ev]\<rparr>
      in case setItem (localQuota pushed) (localStorage pushed) LOCAL_STORAGE_KEY
                (JSON_stringify (JsEvents (events pushed))) of
           Inl err \<Rightarrow> (Some err, pushed)
         | Inr written \<Rightarrow> (None, pushed\<lparr>localStorage := written\<rparr>))"

text \<open>
  \<open>makeHistoryItemSwipeable(item)\<close> creates one closure over the item and the variables
  \<open>startX\<close>, \<open>moveX\<close>, \<open>currentTranslate\<close> and \<open>isDragging\<close>; \<open>None\<close> is \<open>undefined\<close>.
  \<open>documentListeners\<close> says whether the closure's \<open>mousemove\<close> and \<open>mouseup\<close> handlers
  are registered on the document (registering a registered listener again changes nothing).
  Coordinates are whole pixels. The item is threaded through the handlers of the closure
  that holds it. Creating the closure registers its touch and mouse-down listeners on the
  item, one more recognizer on that element.
\<close>

record swipeable =
  item :: item
  startX :: "int option"
  moveX :: "int option"
  currentTranslate :: int
  isDragging :: bool
  documentListeners :: bool

definition makeHistoryItemSwipeable :: "item \<Rightarrow> swipeable" where
  "makeHistoryItemSwipeable it =
     \<lparr> item = it\<lparr>swipe_handlers := Suc (swipe_handlers it)\<rparr>,
       startX = None, moveX = None, currentTranslate = 0, isDragging = False,
       documentListeners = False \<rparr>"

text \<open>
  \<open>addEventToHistory\<close> builds the element, puts it first in the container (both
  branches of the test on \<open>firstChild\<close> do) and makes it swipeable. The page keeps the
  element; the closure lives in the listeners, and the handlers below take it as an argument.
  \<open>makeHistoryItemsSwipeable\<close> does the same once more to every item of the history.
\<close>

definition new_item :: "nat \<Rightarrow> event \<Rightarrow> item" where
  "new_item n ev =
     \<lparr> node = n, dataset_id = Some (Number_toString (event_id ev)),
       img_src = imageData ev, img_alt = ''Event at '' @ formattedTime ev,
       timestamp_text = formattedTime ev, camera_text = cameraName ev,
       delete_indicator = True, style_transition = TransitionUnset,
       style_transform = TransformUnset, collapsed = False, delete_ready = False,
       swipe_handlers = 0 \<rparr>"

definition addEventToHistory :: "event \<Rightarrow> page \<Rightarrow> page" where
  "addEventToHistory ev pg =
     pg\<lparr>history := item (makeHistoryItemSwipeable (new_item (created pg) ev)) # history pg,
        created := Suc (created pg)\<rparr>"

definition makeHistoryItemsSwipeable :: "page \<Rightarrow> page" where
  "makeHistoryItemsSwipeable pg =
     pg\<lparr>history := map (\<lambda>it. item (makeHistoryItemSwipeable it)) (history pg)\<rparr>"

definition sendToDashboard :: "event \<Rightarrow> page \<Rightarrow> js_error option \<times> page" where
  "sendToDashboard ev pg =
     (let dashboardEvent =
            \<lparr> dashboard_id = event_id ev, dashboard_timestamp = timestamp ev,
              dashboard_cameraName = cameraName ev, dashboard_imageData = imageData ev \<rparr>
      in case setItem (localQuota pg) (localStorage pg)
                (''dashboard_event_'' @ Number_toString (event_id ev))
                (JSON_stringify (JsDashboardEvent dashboardEvent)) of
           Inl err \<Rightarrow> (Some err, pg)
         | Inr written \<Rightarrow>
             (None, pg\<lparr>localStorage := written,
                      opened := opened pg
                        @ [DASHBOARD_URL @ ''?eventId='' @ Number_toString (event_id ev)]\<rparr>))"

text \<open>
  What the click handler reads from its environment: the two renderings of \<open>new Date()\<close>,
  the data URL returned by \<open>takeSnapshot()\<close>, and the value of \<open>Date.now()\<close>, which is
  read after the snapshot.
\<close>

record capture =
  capture_iso :: string
  capture_local :: string
  capture_image :: string
  capture_now :: int

definition make_event :: "capture \<Rightarrow> event" where
  "make_event c =
     \<lparr> event_id = capture_now c, timestamp = capture_iso c, formattedTime = capture_local c,
       cameraName = CAMERA_NAME, imageData = capture_image c \<rparr>"

text \<open>
  The click handler has no \<open>try\<close>: an exception of \<open>saveEvent\<close> or of
  \<open>sendToDashboard\<close> ends it on the spot and goes to the browser uncaught.
\<close>

definition eventButton_click :: "capture \<Rightarrow> page \<Rightarrow> page" where
  "eventButton_click c pg =
     (case stream pg of
        None \<Rightarrow> showNotification ''Camera not available'' True pg
      | Some s \<Rightarrow>
          (case saveEvent (make_event c) pg of
             (Some err, thrown) \<Rightarrow> uncaught_exception err thrown
           | (None, saved) \<Rightarrow>
               (case sendToDashboard (make_event c) (addEventToHistory (make_event c) saved) of
                  (Some err, thrown) \<Rightarrow> uncaught_exception err thrown
                | (None, sent) \<Rightarrow>
                    showNotification ''Event reported successfully'' False sent)))"

definition loadEvents :: "page \<Rightarrow> js_error + page" where
  "loadEvents pg =
     (case getItem (localStorage pg) LOCAL_STORAGE_KEY of
        None \<Rightarrow> Inr (makeHistoryItemsSwipeable pg)
      | Some storedEvents \<Rightarrow>
          if \<not> truthy storedEvents then Inr (makeHistoryItemsSwipeable pg)
          else (case JSON_parse storedEvents of
                  Inl err \<Rightarrow> Inl err
                | Inr (JsEvents es) \<Rightarrow>
                    Inr (makeHistoryItemsSwipeable
                          (fold addEventToHistory es (pg\<lparr>events := es\<rparr>)))
                | Inr (JsDashboardEvent d) \<Rightarrow> Inl TypeError))"

text \<open>
  The \<open>DOMContentLoaded\<close> handler: \<open>initCamera()\<close> only starts the request for the camera,
  then the clock is shown, the events are loaded, the clock interval is started and the
  history items are made swipeable again. An exception of \<open>loadEvents\<close> leaves the handler,
  so the interval is not started.
\<close>

definition DOMContentLoaded :: "string \<Rightarrow> page \<Rightarrow> js_error + page" where
  "DOMContentLoaded now pg =
     (case loadEvents (updateCurrentTime now pg) of
        Inl err \<Rightarrow> Inl err
      | Inr loaded \<Rightarrow> Inr (makeHistoryItemsSwipeable (loaded\<lparr>clock_interval := True\<rparr>)))"

subsection \<open>The variant of the page without swiping\<close>

text \<open>
  \<open>script.js\<close> is the same page without the swipe gesture. Its history items carry no
  \<open>data-id\<close> and no delete indicator, and its \<open>sendToDashboard\<close> appends the event to an
  array kept in \<open>sessionStorage\<close>, read with
  \<open>JSON.parse(sessionStorage.getItem('dashboard_events') || '[]')\<close>. That parse can throw,
  after the event has been saved and shown, and so can either storage write; the handler
  then ends there. The click handler of this variant returns the exception, if any, with
  the page it leaves.
\<close>

definition script_new_item :: "nat \<Rightarrow> event \<Rightarrow> item" where
  "script_new_item n ev =
     \<lparr> node = n, dataset_id = None,
       img_src = imageData ev, img_alt = ''Event at '' @ formattedTime ev,
       timestamp_text = formattedTime ev, camera_text = cameraName ev,
       delete_indicator = False, style_transition = TransitionUnset,
       style_transform = TransformUnset, collapsed = False, delete_ready = False,
       swipe_handlers = 0 \<rparr>"

definition script_addEventToHistory :: "event \<Rightarrow> page \<Rightarrow> page" where
  "script_addEventToHistory ev pg =
     pg\<lparr>history := script_new_item (created pg) ev # history pg, created := Suc (created pg)\<rparr>"

definition script_dashboardEvents :: "page \<Rightarrow> js_error + event list" where
  "script_dashboardEvents pg =
     (case getItem (sessionStorage pg) ''dashboard_events'' of
        None \<Rightarrow> Inr []
      | Some t \<Rightarrow>
          if \<not> truthy t then Inr []
          else (case JSON_parse t of
                  Inl err \<Rightarrow> Inl err
                | Inr (JsEvents es) \<Rightarrow> Inr es
                | Inr (JsDashboardEvent d) \<Rightarrow> Inl TypeError))"

definition script_sendToDashboard :: "event \<Rightarrow> page \<Rightarrow> js_error option \<times> page" where
  "script_sendToDashboard ev pg =
     (case script_dashboardEvents pg of
        Inl err \<Rightarrow> (Some err, pg)
      | Inr dashboardEvents \<Rightarrow>
          (case setItem (sessionQuota pg) (sessionStorage pg) ''dashboard_events''
                  (JSON_stringify (JsEvents (dashboardEvents @ [ev]))) of
             Inl err \<Rightarrow> (Some err, pg)
           | Inr written \<Rightarrow> (None, pg\<lparr>sessionStorage := written\<rparr>)))"

definition script_eventButton_click :: "capture \<Rightarrow> page \<Rightarrow> js_error option \<times> page" where
  "script_eventButton_click c pg =
     (case stream pg of
        None \<Rightarrow> (None, showNotification ''Camera not available'' True pg)
      | Some s \<Rightarrow>
          (case saveEvent (make_event c) pg of
             (Some err, thrown) \<Rightarrow> (Some err, thrown)
           | (None, saved) \<Rightarrow>
               (case script_sendToDashboard (make_event c)
                       (script_addEventToHistory (make_event c) saved) of
                  (Some err, thrown) \<Rightarrow> (Some err, thrown)
                | (None, sent) \<Rightarrow>
                    (None, showNotification ''Event reported successfully'' False sent))))"

definition script_loadEvents :: "page \<Rightarrow> js_error + page" where
  "script_loadEvents pg =
     (case getItem (localStorage pg) LOCAL_STORAGE_KEY of
        None \<Rightarrow> Inr pg
      | Some storedEvents \<Rightarrow>
          if \<not> truthy storedEvents then Inr pg
          else (case JSON_parse storedEvents of
                  Inl err \<Rightarrow> Inl err
                | Inr (JsEvents es) \<Rightarrow>
                    Inr (fold script_addEventToHistory es (pg\<lparr>events := es\<rparr>))
                | Inr (JsDashboardEvent d) \<Rightarrow> Inl TypeError))"

definition script_DOMContentLoaded :: "string \<Rightarrow> page \<Rightarrow> js_error + page" where
  "script_DOMContentLoaded now pg =
     (case script_loadEvents (updateCurrentTime now pg) of
        Inl err \<Rightarrow> Inl err
      | Inr loaded \<Rightarrow> Inr (loaded\<lparr>clock_interval := True\<rparr>))"

section \<open>Deleting a history item\<close>

text \<open>
  \<open>parseInt\<close> of an attribute that was never set is \<open>parseInt(undefined)\<close>, which is
  \<open>NaN\<close>. The filter keeps the events whose id is not strictly equal to \<open>eventId\<close>; no
  number is equal to \<open>NaN\<close>, so with \<open>NaN\<close> every event is kept. The filtered list is
  assigned to \<open>events\<close> and then written. After the write the item is styled for the
  collapse and its removal is left to a timer of 300 ms. When the write throws, none of
  that happens: \<open>deleteHistoryItem\<close> is the last call of the drag-end listeners, which do
  not catch, so the exception leaves the listener and is recorded here as uncaught, with
  the filtered list in memory and the storage as it was.
\<close>

definition item_eventId :: "item \<Rightarrow> int option" where
  "item_eventId it = (case dataset_id it of None \<Rightarrow> None | Some s \<Rightarrow> parseInt s)"

definition deleteHistoryItem :: "item \<times> page \<Rightarrow> item \<times> page" where
  "deleteHistoryItem ip =
     (case ip of (it, pg) \<Rightarrow>
        (let eventId = item_eventId it;
             filtered = pg\<lparr>events := filter (\<lambda>ev. Some (event_id ev) \<noteq> eventId) (events pg)\<rparr>
         in (case setItem (localQuota filtered) (localStorage filtered) LOCAL_STORAGE_KEY
                    (JSON_stringify (JsEvents (events filtered))) of
               Inl err \<Rightarrow> (it, uncaught_exception err filtered)
             | Inr written \<Rightarrow>
                 (it\<lparr>collapsed := True, style_transform := TranslateX_minus100pct\<rparr>,
                  setTimeout (RemoveItem (node it)) 300
                    (filtered\<lparr>localStorage := written\<rparr>)))))"

text \<open>The callbacks given to \<open>setTimeout\<close>, and the firing of the pending timer at a position.\<close>

fun run_timer :: "timer \<Rightarrow> page \<Rightarrow> page" where
  "run_timer HideNotification pg = pg\<lparr>notification_shown := False\<rparr>"
| "run_timer (RemoveItem n) pg =
     showNotification ''Event deleted'' False
       (pg\<lparr>history := filter (\<lambda>it. node it \<noteq> n) (history pg)\<rparr>)"

definition fire_timer :: "nat \<Rightarrow> page \<Rightarrow> page" where
  "fire_timer k pg =
     (if k < length (timers pg)
      then run_timer (snd (timers pg ! k))
             (pg\<lparr>timers := take k (timers pg) @ drop (Suc k) (timers pg)\<rparr>)
      else pg)"

section \<open>The swipe recognizer\<close>

text \<open>
  The six handlers of one closure. A handler takes the coordinate \<open>clientX\<close> of its event
  (of the first touch, for a touch event) and the recognizer; the two drag-end handlers
  also take the page, which \<open>deleteHistoryItem\<close> changes.
\<close>

definition handleTouchStart :: "int \<Rightarrow> swipeable \<Rightarrow> swipeable" where
  "handleTouchStart clientX s =
     s\<lparr>startX := Some clientX, isDragging := True,
       item := (item s)\<lparr>style_transition := TransitionNone\<rparr>\<rparr>"

text \<open>
  The leftward branch shared by the two move handlers. \<open>diffX\<close> is \<open>moveX - startX\<close>; with an
  undefined \<open>startX\<close> it is \<open>NaN\<close> and the test \<open>diffX < 0\<close> is false.
\<close>

definition diffX :: "swipeable \<Rightarrow> int option" where
  "diffX s = (case (moveX s, startX s) of (Some m, Some x0) \<Rightarrow> Some (m - x0) | _ \<Rightarrow> None)"

definition apply_translate :: "int \<Rightarrow> swipeable \<Rightarrow> swipeable" where
  "apply_translate d s =
     s\<lparr>currentTranslate := d,
       item := (item s)\<lparr>style_transform := TranslateX_px d, delete_ready := (d < - 80)\<rparr>\<rparr>"

text \<open>The second component says whether \<open>e.preventDefault()\<close> was called.\<close>

definition handleTouchMove :: "int \<Rightarrow> swipeable \<Rightarrow> swipeable \<times> bool" where
  "handleTouchMove clientX s =
     (if \<not> isDragging s then (s, False)
      else let moved = s\<lparr>moveX := Some clientX\<rparr>
           in (case diffX moved of
                 None \<Rightarrow> (moved, False)
               | Some d \<Rightarrow> if d < 0 then (apply_translate d moved, True) else (moved, False)))"

definition reset_position :: "swipeable \<Rightarrow> swipeable" where
  "reset_position s =
     s\<lparr>currentTranslate := 0,
       item := (item s)\<lparr>style_transform := TranslateX_zero, delete_ready := False\<rparr>\<rparr>"

definition handleTouchEnd :: "swipeable \<times> page \<Rightarrow> swipeable \<times> page" where
  "handleTouchEnd sp =
     (case sp of (s, pg) \<Rightarrow>
        let ended = s\<lparr>isDragging := False,
                      item := (item s)\<lparr>style_transition := TransitionTransformEase\<rparr>\<rparr>
        in if currentTranslate ended < - 100
           then (case deleteHistoryItem (item ended, pg) of
                   (it, pg') \<Rightarrow> (ended\<lparr>item := it\<rparr>, pg'))
           else (reset_position ended, pg))"

text \<open>\<open>handleMouseDown\<close> also calls \<open>e.preventDefault()\<close>, always.\<close>

definition handleMouseDown :: "int \<Rightarrow> swipeable \<Rightarrow> swipeable" where
  "handleMouseDown clientX s =
     s\<lparr>startX := Some clientX, isDragging := True,
       item := (item s)\<lparr>style_transition := TransitionNone\<rparr>,
       documentListeners := True\<rparr>"

definition handleMouseMove :: "int \<Rightarrow> swipeable \<Rightarrow> swipeable" where
  "handleMouseMove clientX s =
     (if \<not> isDragging s then s
      else let moved = s\<lparr>moveX := Some clientX\<rparr>
           in (case diffX moved of
                 None \<Rightarrow> moved
               | Some d \<Rightarrow> if d < 0 then apply_translate d moved else moved))"

definition handleMouseUp :: "swipeable \<times> page \<Rightarrow> swipeable \<times> page" where
  "handleMouseUp sp =
     (case sp of (s, pg) \<Rightarrow>
        if \<not> isDragging s then (s, pg)
        else let ended = s\<lparr>isDragging := False,
                           item := (item s)\<lparr>style_transition := TransitionTransformEase\<rparr>,
                           documentListeners := False\<rparr>
             in if currentTranslate ended < - 100
                then (case deleteHistoryItem (item ended, pg) of
                        (it, pg') \<Rightarrow> (ended\<lparr>item := it\<rparr>, pg'))
                else (reset_position ended, pg))"

subsection \<open>Drag sessions\<close>

text \<open>
  A drag is a drag-start at \<open>x0\<close> followed by moves at the positions \<open>xs\<close>; these functions
  give the recognizer as the drag-end handler finds it.
\<close>

definition touch_drag :: "int \<Rightarrow> int list \<Rightarrow> swipeable \<Rightarrow> swipeable" where
  "touch_drag x0 xs s = fold (\<lambda>x r. fst (handleTouchMove x r)) xs (handleTouchStart x0 s)"

definition mouse_drag :: "int \<Rightarrow> int list \<Rightarrow> swipeable \<Rightarrow> swipeable" where
  "mouse_drag x0 xs s = fold handleMouseMove xs (handleMouseDown x0 s)"

text \<open>
  The recognizers that can arise: a new closure over an element that has neither the
  delete-ready class nor a transform (the program makes elements swipeable when it has just
  built them), and what any handler makes of one. The mouse move and mouse up handlers run
  only while they are registered on the document.
\<close>

inductive reachable :: "swipeable \<Rightarrow> bool" where
  created: "\<not> delete_ready it \<Longrightarrow> style_transform it = TransformUnset \<Longrightarrow>
     reachable (makeHistoryItemSwipeable it)"
| touch_start: "reachable s \<Longrightarrow> reachable (handleTouchStart x s)"
| touch_move: "reachable s \<Longrightarrow> reachable (fst (handleTouchMove x s))"
| touch_end: "reachable s \<Longrightarrow> reachable (fst (handleTouchEnd (s, pg)))"
| mouse_down: "reachable s \<Longrightarrow> reachable (handleMouseDown x s)"
| mouse_move: "reachable s \<Longrightarrow> documentListeners s \<Longrightarrow> reachable (handleMouseMove x s)"
| mouse_up: "reachable s \<Longrightarrow> documentListeners s \<Longrightarrow> reachable (fst (handleMouseUp (s, pg)))"

subsection \<open>Predicates of the claims\<close>

text \<open>
  The persisted collection is in step with the list in memory when the text under the
  storage key is the serialisation of that list.
\<close>

definition store_synced :: "page \<Rightarrow> bool" where
  "store_synced pg =
     (getItem (localStorage pg) LOCAL_STORAGE_KEY = Some (JSON_stringify (JsEvents (events pg))))"

text \<open>
  The drag-end handlers delete when \<open>currentTranslate < -100\<close>. The invariant says that
  a recognizer in that condition shows the delete-ready class.
\<close>

definition commit_invariant :: "swipeable \<Rightarrow> bool" where
  "commit_invariant s = (currentTranslate s < - 100 \<longrightarrow> delete_ready (item s))"

text \<open>
  A recognizer is at rest when its offset variable is 0 and its item has no delete-ready
  class and is not translated. The second invariant says that a recognizer with no drag
  going on is at rest, unless an earlier drag has committed the deletion of its item.
\<close>

definition at_rest :: "swipeable \<Rightarrow> bool" where
  "at_rest s =
     (currentTranslate s = 0 \<and> \<not> delete_ready (item s)
      \<and> style_transform (item s) \<in> {TransformUnset, TranslateX_zero})"

definition rest_invariant :: "swipeable \<Rightarrow> bool" where
  "rest_invariant s = (\<not> isDragging s \<longrightarrow> at_rest s \<or> currentTranslate s < - 100)"

text \<open>
  The write of a list of events under the storage key fits when the contents it would
  leave have room in the local storage of the page.
\<close>

definition write_fits :: "page \<Rightarrow> event list \<Rightarrow> bool" where
  "write_fits pg es =
     localQuota pg ((localStorage pg)(LOCAL_STORAGE_KEY \<mapsto> JSON_stringify (JsEvents es)))"

text \<open>
  Loading the page again over the storage it has left behind, and the events that are then
  in memory (or the exception that ends the load).
\<close>

definition reload :: "string \<Rightarrow> page \<Rightarrow> js_error + page" where
  "reload now pg =
     DOMContentLoaded now
       ((initial_page (localStorage pg) (sessionStorage pg))
          \<lparr>localQuota := localQuota pg, sessionQuota := sessionQuota pg\<rparr>)"

definition reloaded_events :: "string \<Rightarrow> page \<Rightarrow> js_error + event list" where
  "reloaded_events now pg =
     (case reload now pg of
        Inl err \<Rightarrow> Inl err
      | Inr loaded \<Rightarrow> Inr (events loaded))"

subsection \<open>Sample values\<close>

text \<open>
  Two captures, the events made from them, the page after the camera has connected over
  empty storage, and the same page after the two captures.
\<close>

definition capture_a :: capture where
  "capture_a =
     \<lparr> capture_iso = ''2024-05-01T10:00:00.000Z'', capture_local = ''5/1/2024, 10:00:00 AM'',
       capture_image = ''data:image/jpeg;base64,AAAA'', capture_now = 1000 \<rparr>"

definition capture_b :: capture where
  "capture_b =
     \<lparr> capture_iso = ''2024-05-01T10:00:02.000Z'', capture_local = ''5/1/2024, 10:00:02 AM'',
       capture_image = ''data:image/jpeg;base64,BBBB'', capture_now = 3000 \<rparr>"

definition event_a :: event where
  "event_a = make_event capture_a"

definition event_b :: event where
  "event_b = make_event capture_b"

definition camera_page :: page where
  "camera_page = initCamera_resolved (initial_page Map.empty Map.empty)"

definition two_event_page :: page where
  "two_event_page = eventButton_click capture_b (eventButton_click capture_a camera_page)"

definition item_a :: item where
  "item_a = new_item 0 event_a"

text \<open>
  The recognizer of the first sample item after a touch drag from 200 to 80, and after a
  mouse drag from 200 to 80 and back to 250.
\<close>

definition dragged_a :: swipeable where
  "dragged_a = touch_drag 200 [80] (makeHistoryItemSwipeable item_a)"

definition returned_a :: swipeable where
  "returned_a = mouse_drag 200 [80, 250] (makeHistoryItemSwipeable item_a)"

text \<open>A third capture, taken while the clock still reads what it read at the first.\<close>

definition capture_a_again :: capture where
  "capture_a_again = capture_a\<lparr>capture_image := ''data:image/jpeg;base64,CCCC''\<rparr>"

text \<open>
  A storage area with room for \<open>n\<close> characters of image data under the events key, a
  capture with a larger image, the camera page over an area with room for 30 characters,
  and that page after a capture that fits and one that does not.
\<close>

definition image_room :: "nat \<Rightarrow> storage \<Rightarrow> bool" where
  "image_room n st =
     (case st LOCAL_STORAGE_KEY of
        Some (Serialized (JsEvents es)) \<Rightarrow> sum_list (map (\<lambda>ev. length (imageData ev)) es) \<le> n
      | _ \<Rightarrow> True)"

definition capture_big :: capture where
  "capture_big =
     \<lparr> capture_iso = ''2024-05-01T10:00:04.000Z'', capture_local = ''5/1/2024, 10:00:04 AM'',
       capture_image = ''data:image/jpeg;base64,DDDDDDDDDDDD'', capture_now = 5000 \<rparr>"

definition event_big :: event where
  "event_big = make_event capture_big"

definition small_page :: page where
  "small_page = camera_page\<lparr>localQuota := image_room 30\<rparr>"

definition overfull_page :: page where
  "overfull_page = eventButton_click capture_big (eventButton_click capture_a small_page)"

section \<open>The store\<close>

lemma showNotification_store [simp]:
  "events (showNotification m e pg) = events pg"
  "localStorage (showNotification m e pg) = localStorage pg"
  "localQuota (showNotification m e pg) = localQuota pg"
  "sessionStorage (showNotification m e pg) = sessionStorage pg"
  "history (showNotification m e pg) = history pg"
  "stream (showNotification m e pg) = stream pg"
  "opened (showNotification m e pg) = opened pg"
  "created (showNotification m e pg) = created pg"
  "uncaught (showNotification m e pg) = uncaught pg"
  by (simp_all add: showNotification_def setTimeout_def)

lemma uncaught_exception_store [simp]:
  "events (uncaught_exception err pg) = events pg"
  "localStorage (uncaught_exception err pg) = localStorage pg"
  "localQuota (uncaught_exception err pg) = localQuota pg"
  "history (uncaught_exception err pg) = history pg"
  "stream (uncaught_exception err pg) = stream pg"
  "timers (uncaught_exception err pg) = timers pg"
  "uncaught (uncaught_exception err pg) = uncaught pg @ [err]"
  by (simp_all add: uncaught_exception_def)

lemma setItem_cases:
  "room (st(k \<mapsto> v)) \<Longrightarrow> setItem room st k v = Inr (st(k \<mapsto> v))"
  "\<not> room (st(k \<mapsto> v)) \<Longrightarrow> setItem room st k v = Inl QuotaExceededError"
  by (simp_all add: setItem_def)

lemma saveEvent_accepted:
  assumes "write_fits pg (events pg @ [ev])"
  shows "saveEvent ev pg
           = (None, pg\<lparr>events := events pg @ [ev],
                       localStorage := (localStorage pg)(LOCAL_STORAGE_KEY \<mapsto>
                         JSON_stringify (JsEvents (events pg @ [ev])))\<rparr>)"
  using assms by (simp add: saveEvent_def write_fits_def Let_def setItem_def)

lemma saveEvent_rejected:
  assumes "\<not> write_fits pg (events pg @ [ev])"
  shows "saveEvent ev pg = (Some QuotaExceededError, pg\<lparr>events := events pg @ [ev]\<rparr>)"
  using assms by (simp add: saveEvent_def write_fits_def Let_def setItem_def)

lemma saveEvent_store [simp]:
  "events (snd (saveEvent ev pg)) = events pg @ [ev]"
  "stream (snd (saveEvent ev pg)) = stream pg"
  "localQuota (snd (saveEvent ev pg)) = localQuota pg"
  by (simp_all add: saveEvent_def Let_def split: sum.splits)

lemma sendToDashboard_store [simp]:
  "events (snd (sendToDashboard ev pg)) = events pg"
  "stream (snd (sendToDashboard ev pg)) = stream pg"
  "localQuota (snd (sendToDashboard ev pg)) = localQuota pg"
  "getItem (localStorage (snd (sendToDashboard ev pg))) LOCAL_STORAGE_KEY =
     getItem (localStorage pg) LOCAL_STORAGE_KEY"
  by (simp_all add: sendToDashboard_def Let_def getItem_def setItem_def LOCAL_STORAGE_KEY_def
      split: sum.splits if_splits)

lemma makeHistoryItemsSwipeable_store [simp]:
  "events (makeHistoryItemsSwipeable pg) = events pg"
  "stream (makeHistoryItemsSwipeable pg) = stream pg"
  "localStorage (makeHistoryItemsSwipeable pg) = localStorage pg"
  "sessionStorage (makeHistoryItemsSwipeable pg) = sessionStorage pg"
  "timers (makeHistoryItemsSwipeable pg) = timers pg"
  "notification_shown (makeHistoryItemsSwipeable pg) = notification_shown pg"
  by (simp_all add: makeHistoryItemsSwipeable_def)

lemma addEventToHistory_store [simp]:
  "events (addEventToHistory ev pg) = events pg"
  "stream (addEventToHistory ev pg) = stream pg"
  "localStorage (addEventToHistory ev pg) = localStorage pg"
  "localQuota (addEventToHistory ev pg) = localQuota pg"
  "events (script_addEventToHistory ev pg) = events pg"
  "stream (script_addEventToHistory ev pg) = stream pg"
  "localStorage (script_addEventToHistory ev pg) = localStorage pg"
  "localQuota (script_addEventToHistory ev pg) = localQuota pg"
  by (simp_all add: addEventToHistory_def script_addEventToHistory_def)

lemma script_sendToDashboard_store [simp]:
  "events (snd (script_sendToDashboard ev pg)) = events pg"
  "stream (snd (script_sendToDashboard ev pg)) = stream pg"
  "localStorage (snd (script_sendToDashboard ev pg)) = localStorage pg"
  "localQuota (snd (script_sendToDashboard ev pg)) = localQuota pg"
  by (simp_all add: script_sendToDashboard_def split: sum.splits)

lemma saveEvent_synced:
  "write_fits pg (events pg @ [ev]) \<Longrightarrow> store_synced (snd (saveEvent ev pg))"
  by (simp add: saveEvent_accepted store_synced_def getItem_def)

text \<open>What \<open>deleteHistoryItem\<close> leaves, on either side of its write.\<close>

lemma deleteHistoryItem_events:
  "events (snd (deleteHistoryItem (it, pg))) =
     filter (\<lambda>ev. Some (event_id ev) \<noteq> item_eventId it) (events pg)"
  by (simp add: deleteHistoryItem_def Let_def setTimeout_def split: sum.splits)

lemma deleteHistoryItem_quota [simp]:
  "localQuota (snd (deleteHistoryItem (it, pg))) = localQuota pg"
  by (simp add: deleteHistoryItem_def Let_def setTimeout_def split: sum.splits)

lemma deleteHistoryItem_accepted:
  assumes "write_fits pg (filter (\<lambda>ev. Some (event_id ev) \<noteq> item_eventId it) (events pg))"
  shows "deleteHistoryItem (it, pg)
           = (it\<lparr>collapsed := True, style_transform := TranslateX_minus100pct\<rparr>,
              setTimeout (RemoveItem (node it)) 300
                (pg\<lparr>events := filter (\<lambda>ev. Some (event_id ev) \<noteq> item_eventId it) (events pg),
                    localStorage := (localStorage pg)(LOCAL_STORAGE_KEY \<mapsto>
                      JSON_stringify (JsEvents
                        (filter (\<lambda>ev. Some (event_id ev) \<noteq> item_eventId it) (events pg))))\<rparr>))"
  using assms by (simp add: deleteHistoryItem_def write_fits_def Let_def setItem_def)

lemma deleteHistoryItem_rejected:
  assumes "\<not> write_fits pg (filter (\<lambda>ev. Some (event_id ev) \<noteq> item_eventId it) (events pg))"
  shows "deleteHistoryItem (it, pg)
           = (it, uncaught_exception QuotaExceededError
                (pg\<lparr>events := filter (\<lambda>ev. Some (event_id ev) \<noteq> item_eventId it) (events pg)\<rparr>))"
  using assms by (simp add: deleteHistoryItem_def write_fits_def Let_def setItem_def)

lemma deleteHistoryItem_localStorage:
  "localStorage (snd (deleteHistoryItem (it, pg))) =
     (if write_fits pg (events (snd (deleteHistoryItem (it, pg))))
      then (localStorage pg)(LOCAL_STORAGE_KEY \<mapsto>
             JSON_stringify (JsEvents (events (snd (deleteHistoryItem (it, pg))))))
      else localStorage pg)"
  unfolding deleteHistoryItem_events
  by (simp add: deleteHistoryItem_accepted deleteHistoryItem_rejected setTimeout_def)

lemma deleteHistoryItem_synced:
  "write_fits pg (filter (\<lambda>ev. Some (event_id ev) \<noteq> item_eventId it) (events pg)) \<Longrightarrow>
   store_synced (snd (deleteHistoryItem (it, pg)))"
  by (simp add: deleteHistoryItem_accepted store_synced_def getItem_def setTimeout_def)

lemma eventButton_click_events:
  "stream pg = Some m \<Longrightarrow> events (eventButton_click c pg) = events pg @ [make_event c]"
  "stream pg = Some m \<Longrightarrow> stream (eventButton_click c pg) = Some m"
proof -
  assume m: "stream pg = Some m"
  obtain e1 p1 where s: "saveEvent (make_event c) pg = (e1, p1)" by force
  then have p1: "events p1 = events pg @ [make_event c]" "stream p1 = Some m"
    using saveEvent_store(1,2)[of "make_event c" pg] m by simp_all
  obtain e2 p2 where d: "sendToDashboard (make_event c) (addEventToHistory (make_event c) p1) = (e2, p2)"
    by force
  then have p2: "events p2 = events pg @ [make_event c]" "stream p2 = Some m"
    using sendToDashboard_store(1,2)[of "make_event c" "addEventToHistory (make_event c) p1"] p1
    by simp_all
  show "events (eventButton_click c pg) = events pg @ [make_event c]"
    using m s d p1 p2 by (cases e1; cases e2) (simp_all add: eventButton_click_def)
  show "stream (eventButton_click c pg) = Some m"
    using m s d p1 p2 by (cases e1; cases e2) (simp_all add: eventButton_click_def)
qed

lemma eventButton_click_quota:
  "localQuota (eventButton_click c pg) = localQuota pg"
proof -
  obtain e1 p1 where s: "saveEvent (make_event c) pg = (e1, p1)" by force
  then have p1: "localQuota p1 = localQuota pg"
    using saveEvent_store(3)[of "make_event c" pg] by simp
  obtain e2 p2 where d: "sendToDashboard (make_event c) (addEventToHistory (make_event c) p1) = (e2, p2)"
    by force
  then have p2: "localQuota p2 = localQuota pg"
    using sendToDashboard_store(3)[of "make_event c" "addEventToHistory (make_event c) p1"] p1
    by simp
  show ?thesis
    using s d p1 p2
    by (cases "stream pg"; cases e1; cases e2) (simp_all add: eventButton_click_def)
qed

lemma eventButton_click_synced:
  assumes "stream pg = Some m" and "write_fits pg (events pg @ [make_event c])"
  shows "store_synced (eventButton_click c pg)"
proof -
  let ?saved = "pg\<lparr>events := events pg @ [make_event c],
      localStorage := (localStorage pg)(LOCAL_STORAGE_KEY \<mapsto>
        JSON_stringify (JsEvents (events pg @ [make_event c])))\<rparr>"
  have s: "saveEvent (make_event c) pg = (None, ?saved)"
    by (rule saveEvent_accepted[OF assms(2)])
  have synced: "store_synced ?saved"
    by (simp add: store_synced_def getItem_def)
  obtain e2 p2 where d: "sendToDashboard (make_event c) (addEventToHistory (make_event c) ?saved) = (e2, p2)"
    by force
  then have "events p2 = events ?saved"
    "getItem (localStorage p2) LOCAL_STORAGE_KEY = getItem (localStorage ?saved) LOCAL_STORAGE_KEY"
    using sendToDashboard_store(1,4)[of "make_event c" "addEventToHistory (make_event c) ?saved"]
    by simp_all
  then have "store_synced p2"
    using synced by (simp add: store_synced_def)
  then show ?thesis
    using assms(1) s d by (cases e2) (simp_all add: eventButton_click_def store_synced_def)
qed

lemma eventButton_click_rejected:
  assumes "stream pg = Some m" and "\<not> write_fits pg (events pg @ [make_event c])"
  shows "eventButton_click c pg
           = uncaught_exception QuotaExceededError (pg\<lparr>events := events pg @ [make_event c]\<rparr>)"
  using assms by (simp add: eventButton_click_def saveEvent_rejected)

lemma script_eventButton_click_events:
  "stream pg = Some m \<Longrightarrow>
     events (snd (script_eventButton_click c pg)) = events pg @ [make_event c]"
  "stream pg = Some m \<Longrightarrow> stream (snd (script_eventButton_click c pg)) = Some m"
proof -
  assume m: "stream pg = Some m"
  obtain e1 p1 where s: "saveEvent (make_event c) pg = (e1, p1)" by force
  then have p1: "events p1 = events pg @ [make_event c]" "stream p1 = Some m"
    using saveEvent_store(1,2)[of "make_event c" pg] m by simp_all
  obtain e2 p2
    where d: "script_sendToDashboard (make_event c) (script_addEventToHistory (make_event c) p1)
      = (e2, p2)"
    by force
  then have p2: "events p2 = events pg @ [make_event c]" "stream p2 = Some m"
    using script_sendToDashboard_store(1,2)[of "make_event c"
        "script_addEventToHistory (make_event c) p1"] p1
    by simp_all
  show "events (snd (script_eventButton_click c pg)) = events pg @ [make_event c]"
    using m s d p1 p2 by (cases e1; cases e2) (simp_all add: script_eventButton_click_def)
  show "stream (snd (script_eventButton_click c pg)) = Some m"
    using m s d p1 p2 by (cases e1; cases e2) (simp_all add: script_eventButton_click_def)
qed

lemma script_eventButton_click_synced:
  assumes "stream pg = Some m" and "write_fits pg (events pg @ [make_event c])"
  shows "store_synced (snd (script_eventButton_click c pg))"
proof -
  let ?saved = "pg\<lparr>events := events pg @ [make_event c],
      localStorage := (localStorage pg)(LOCAL_STORAGE_KEY \<mapsto>
        JSON_stringify (JsEvents (events pg @ [make_event c])))\<rparr>"
  have s: "saveEvent (make_event c) pg = (None, ?saved)"
    by (rule saveEvent_accepted[OF assms(2)])
  have synced: "store_synced ?saved"
    by (simp add: store_synced_def getItem_def)
  obtain e2 p2
    where d: "script_sendToDashboard (make_event c) (script_addEventToHistory (make_event c) ?saved)
      = (e2, p2)"
    by force
  then have "events p2 = events ?saved" "localStorage p2 = localStorage ?saved"
    using script_sendToDashboard_store(1,3)[of "make_event c"
        "script_addEventToHistory (make_event c) ?saved"]
    by simp_all
  then have "store_synced p2"
    using synced by (simp add: store_synced_def)
  then show ?thesis
    using assms(1) s d by (cases e2) (simp_all add: script_eventButton_click_def store_synced_def)
qed

lemma script_eventButton_click_rejected:
  assumes "stream pg = Some m" and "\<not> write_fits pg (events pg @ [make_event c])"
  shows "script_eventButton_click c pg
           = (Some QuotaExceededError, pg\<lparr>events := events pg @ [make_event c]\<rparr>)"
  using assms by (simp add: script_eventButton_click_def saveEvent_rejected)

lemma unlimited_room_fits: "localQuota pg = (\<lambda>st. True) \<Longrightarrow> write_fits pg es"
  by (simp add: write_fits_def)

lemma image_room_fits:
  "localQuota pg = image_room n \<Longrightarrow>
   write_fits pg es = (sum_list (map (\<lambda>ev. length (imageData ev)) es) \<le> n)"
  by (simp add: write_fits_def image_room_def JSON_stringify_def)

lemma camera_page_stream: "stream camera_page = Some MediaStream"
  by (simp add: camera_page_def initCamera_resolved_def)

lemma camera_page_events: "events camera_page = []"
  by (simp add: camera_page_def initCamera_resolved_def initial_page_def)

lemma camera_page_quota: "localQuota camera_page = (\<lambda>st. True)"
  by (simp add: camera_page_def initCamera_resolved_def initial_page_def)

lemma small_page_fields:
  "stream small_page = Some MediaStream"
  "events small_page = []"
  "localQuota small_page = image_room 30"
  by (simp_all add: small_page_def camera_page_stream camera_page_events)

lemma sample_images:
  "length (imageData (make_event capture_a)) = 27"
  "length (imageData (make_event capture_big)) = 35"
  by (simp_all add: make_event_def capture_a_def capture_big_def)

text \<open>
  Claim C8, as the code has it. A mutation changes the list in memory first and writes it
  after, with no \<open>try\<close> around the write. When the write fits, the list in memory is the
  old one with the event appended (or with the events of the item's identifier filtered
  out), and the text under the storage key is the serialisation of that list when
  \<open>saveEvent\<close>, \<open>deleteHistoryItem\<close> or the click handler of either variant of the page
  returns. When it does not fit,
  \<open>setItem\<close> throws \<open>QuotaExceededError\<close>: the function ends there, with the change made
  in memory and the storage as it was, and the exception leaves the handler uncaught.
\<close>

theorem mutation_syncs_store_when_written:
  assumes "stream pg = Some m"
  shows "(write_fits pg (events pg @ [ev]) \<longrightarrow>
            saveEvent ev pg
              = (None, pg\<lparr>events := events pg @ [ev],
                          localStorage := (localStorage pg)(LOCAL_STORAGE_KEY \<mapsto>
                            JSON_stringify (JsEvents (events pg @ [ev])))\<rparr>)
          \<and> store_synced (snd (saveEvent ev pg)))
     \<and> (\<not> write_fits pg (events pg @ [ev]) \<longrightarrow>
            saveEvent ev pg = (Some QuotaExceededError, pg\<lparr>events := events pg @ [ev]\<rparr>))
     \<and> (write_fits pg (events pg @ [make_event c]) \<longrightarrow>
            events (eventButton_click c pg) = events pg @ [make_event c]
          \<and> store_synced (eventButton_click c pg)
          \<and> events (snd (script_eventButton_click c pg)) = events pg @ [make_event c]
          \<and> store_synced (snd (script_eventButton_click c pg)))
     \<and> (\<not> write_fits pg (events pg @ [make_event c]) \<longrightarrow>
            eventButton_click c pg
              = uncaught_exception QuotaExceededError
                  (pg\<lparr>events := events pg @ [make_event c]\<rparr>)
          \<and> script_eventButton_click c pg
              = (Some QuotaExceededError, pg\<lparr>events := events pg @ [make_event c]\<rparr>))
     \<and> (write_fits pg (filter (\<lambda>ev. Some (event_id ev) \<noteq> item_eventId it) (events pg)) \<longrightarrow>
            events (snd (deleteHistoryItem (it, pg)))
              = filter (\<lambda>ev. Some (event_id ev) \<noteq> item_eventId it) (events pg)
          \<and> store_synced (snd (deleteHistoryItem (it, pg)))
          \<and> uncaught (snd (deleteHistoryItem (it, pg))) = uncaught pg)
     \<and> (\<not> write_fits pg (filter (\<lambda>ev. Some (event_id ev) \<noteq> item_eventId it) (events pg)) \<longrightarrow>
            deleteHistoryItem (it, pg)
              = (it, uncaught_exception QuotaExceededError
                   (pg\<lparr>events :=
                        filter (\<lambda>ev. Some (event_id ev) \<noteq> item_eventId it) (events pg)\<rparr>)))"
proof (intro conjI impI)
  assume "write_fits pg (events pg @ [ev])"
  then show "saveEvent ev pg
      = (None, pg\<lparr>events := events pg @ [ev],
                  localStorage := (localStorage pg)(LOCAL_STORAGE_KEY \<mapsto>
                    JSON_stringify (JsEvents (events pg @ [ev])))\<rparr>)"
    and "store_synced (snd (saveEvent ev pg))"
    by (rule saveEvent_accepted, rule saveEvent_synced)
next
  assume "\<not> write_fits pg (events pg @ [ev])"
  then show "saveEvent ev pg = (Some QuotaExceededError, pg\<lparr>events := events pg @ [ev]\<rparr>)"
    by (rule saveEvent_rejected)
next
  assume fits: "write_fits pg (events pg @ [make_event c])"
  show "events (eventButton_click c pg) = events pg @ [make_event c]"
    by (rule eventButton_click_events(1)[OF assms])
  show "store_synced (eventButton_click c pg)"
    by (rule eventButton_click_synced[OF assms fits])
  show "events (snd (script_eventButton_click c pg)) = events pg @ [make_event c]"
    by (rule script_eventButton_click_events(1)[OF assms])
  show "store_synced (snd (script_eventButton_click c pg))"
    by (rule script_eventButton_click_synced[OF assms fits])
next
  assume full: "\<not> write_fits pg (events pg @ [make_event c])"
  show "eventButton_click c pg
      = uncaught_exception QuotaExceededError (pg\<lparr>events := events pg @ [make_event c]\<rparr>)"
    by (rule eventButton_click_rejected[OF assms full])
  show "script_eventButton_click c pg
      = (Some QuotaExceededError, pg\<lparr>events := events pg @ [make_event c]\<rparr>)"
    by (rule script_eventButton_click_rejected[OF assms full])
next
  assume fits: "write_fits pg (filter (\<lambda>ev. Some (event_id ev) \<noteq> item_eventId it) (events pg))"
  show "events (snd (deleteHistoryItem (it, pg)))
      = filter (\<lambda>ev. Some (event_id ev) \<noteq> item_eventId it) (events pg)"
    by (rule deleteHistoryItem_events)
  show "store_synced (snd (deleteHistoryItem (it, pg)))"
    using fits by (rule deleteHistoryItem_synced)
  show "uncaught (snd (deleteHistoryItem (it, pg))) = uncaught pg"
    by (simp add: deleteHistoryItem_accepted[OF fits] setTimeout_def)
next
  assume "\<not> write_fits pg (filter (\<lambda>ev. Some (event_id ev) \<noteq> item_eventId it) (events pg))"
  then show "deleteHistoryItem (it, pg)
      = (it, uncaught_exception QuotaExceededError
           (pg\<lparr>events := filter (\<lambda>ev. Some (event_id ev) \<noteq> item_eventId it) (events pg)\<rparr>))"
    by (rule deleteHistoryItem_rejected)
qed

lemma small_page_first_fits: "write_fits small_page (events small_page @ [make_event capture_a])"
  by (simp add: image_room_fits[OF small_page_fields(3)] small_page_fields sample_images)

lemma one_event_small_fields:
  "stream (eventButton_click capture_a small_page) = Some MediaStream"
  "events (eventButton_click capture_a small_page) = [make_event capture_a]"
  "localQuota (eventButton_click capture_a small_page) = image_room 30"
  "store_synced (eventButton_click capture_a small_page)"
  using eventButton_click_events[OF small_page_fields(1), of capture_a]
    eventButton_click_synced[OF small_page_fields(1) small_page_first_fits]
  by (simp_all add: eventButton_click_quota small_page_fields)

lemma small_page_second_full:
  "\<not> write_fits (eventButton_click capture_a small_page)
       (events (eventButton_click capture_a small_page) @ [make_event capture_big])"
  by (simp add: image_room_fits[OF one_event_small_fields(3)] one_event_small_fields(2)
      sample_images)

lemma overfull_page_fields:
  "overfull_page = uncaught_exception QuotaExceededError
     ((eventButton_click capture_a small_page)
        \<lparr>events := [make_event capture_a, make_event capture_big]\<rparr>)"
  "events overfull_page = [make_event capture_a, make_event capture_big]"
  "getItem (localStorage overfull_page) LOCAL_STORAGE_KEY
     = Some (JSON_stringify (JsEvents [make_event capture_a]))"
  "localQuota overfull_page = image_room 30"
proof -
  show eq: "overfull_page = uncaught_exception QuotaExceededError
     ((eventButton_click capture_a small_page)
        \<lparr>events := [make_event capture_a, make_event capture_big]\<rparr>)"
    unfolding overfull_page_def
    using eventButton_click_rejected[OF one_event_small_fields(1) small_page_second_full]
    by (simp add: one_event_small_fields(2))
  show "events overfull_page = [make_event capture_a, make_event capture_big]"
    by (simp add: eq)
  show "getItem (localStorage overfull_page) LOCAL_STORAGE_KEY
     = Some (JSON_stringify (JsEvents [make_event capture_a]))"
    using one_event_small_fields(4) by (simp add: eq store_synced_def one_event_small_fields(2))
  show "localQuota overfull_page = image_room 30"
    by (simp add: eq one_event_small_fields(3))
qed

theorem mutation_syncs_store_when_written_witness:
  "stream camera_page = Some MediaStream
     \<and> write_fits camera_page (events camera_page @ [make_event capture_a])
     \<and> store_synced (snd (saveEvent (make_event capture_a) camera_page))
     \<and> store_synced (eventButton_click capture_a camera_page)
     \<and> store_synced (snd (script_eventButton_click capture_a camera_page))
     \<and> write_fits camera_page
          (filter (\<lambda>ev. Some (event_id ev) \<noteq> item_eventId item_a) (events camera_page))
     \<and> store_synced (snd (deleteHistoryItem (item_a, camera_page)))
     \<and> stream (eventButton_click capture_a small_page) = Some MediaStream
     \<and> \<not> write_fits (eventButton_click capture_a small_page)
            (events (eventButton_click capture_a small_page) @ [make_event capture_big])
     \<and> fst (saveEvent (make_event capture_big) (eventButton_click capture_a small_page))
          = Some QuotaExceededError
     \<and> events (eventButton_click capture_big (eventButton_click capture_a small_page))
          = [make_event capture_a, make_event capture_big]"
proof -
  have fits: "write_fits camera_page es" for es
    by (rule unlimited_room_fits[OF camera_page_quota])
  note accepted = mutation_syncs_store_when_written[OF camera_page_stream,
      of "make_event capture_a" capture_a item_a]
  note rejected = mutation_syncs_store_when_written[OF one_event_small_fields(1),
      of "make_event capture_big" capture_big item_a]
  have a1: "store_synced (snd (saveEvent (make_event capture_a) camera_page))"
    using accepted fits by blast
  have a2: "store_synced (eventButton_click capture_a camera_page)"
    "store_synced (snd (script_eventButton_click capture_a camera_page))"
    using accepted fits by blast+
  have a3: "store_synced (snd (deleteHistoryItem (item_a, camera_page)))"
    using accepted fits by blast
  have r1: "saveEvent (make_event capture_big) (eventButton_click capture_a small_page)
      = (Some QuotaExceededError,
         (eventButton_click capture_a small_page)
           \<lparr>events := events (eventButton_click capture_a small_page) @ [make_event capture_big]\<rparr>)"
    using rejected small_page_second_full by blast
  have r2: "eventButton_click capture_big (eventButton_click capture_a small_page)
      = uncaught_exception QuotaExceededError
          ((eventButton_click capture_a small_page)
             \<lparr>events := events (eventButton_click capture_a small_page) @ [make_event capture_big]\<rparr>)"
    using rejected small_page_second_full by blast
  have "fst (saveEvent (make_event capture_big) (eventButton_click capture_a small_page))
      = Some QuotaExceededError"
    by (simp add: r1)
  moreover have "events (eventButton_click capture_big (eventButton_click capture_a small_page))
      = [make_event capture_a, make_event capture_big]"
    by (simp add: r2 one_event_small_fields(2))
  ultimately show ?thesis
    using camera_page_stream fits a1 a2 a3 one_event_small_fields(1) small_page_second_full
    by (intro conjI)
qed

text \<open>
  The claim as the specification states it fails when the write does not fit. Over a
  storage area with room for 30 characters of image data, a first capture is saved and
  written; a second capture with a larger image is pushed to the list in memory, and then
  the write throws. The click handler ends there with the exception uncaught: memory holds
  two events and the storage the first one only.
\<close>

theorem full_storage_counterexample:
  "stream (eventButton_click capture_a small_page) = Some MediaStream
     \<and> store_synced (eventButton_click capture_a small_page)
     \<and> events overfull_page = [make_event capture_a, make_event capture_big]
     \<and> getItem (localStorage overfull_page) LOCAL_STORAGE_KEY
          = Some (JSON_stringify (JsEvents [make_event capture_a]))
     \<and> \<not> store_synced overfull_page
     \<and> QuotaExceededError \<in> set (uncaught overfull_page)"
proof -
  have "\<not> store_synced overfull_page"
    by (simp add: store_synced_def overfull_page_fields(2,3) JSON_stringify_def)
  moreover have "QuotaExceededError \<in> set (uncaught overfull_page)"
    by (simp add: overfull_page_fields(1))
  ultimately show ?thesis
    using one_event_small_fields(1,4) overfull_page_fields(2,3) by (intro conjI)
qed

section \<open>Identifiers as attribute text\<close>

lemma digit_char_props: "d < 10 \<Longrightarrow> is_digit (digit_char d) \<and> digit_value (digit_char d) = d"
  by (simp add: is_digit_def digit_value_def digit_char_def)

lemma digits_all_digit: "\<forall>c\<in>set (digits n). is_digit c"
proof (induction n rule: digits.induct)
  case (1 n)
  show ?case
  proof (cases "n < 10")
    case True
    then show ?thesis by (simp add: digits.simps[of n] digit_char_props)
  next
    case False
    with 1 show ?thesis by (simp add: digits.simps[of n] digit_char_props)
  qed
qed

lemma digits_nonempty: "digits n \<noteq> []"
  by (subst digits.simps) simp

lemma digits_value_digits: "digits_value (digits n) = n"
proof (induction n rule: digits.induct)
  case (1 n)
  show ?case
  proof (cases "n < 10")
    case True
    then show ?thesis by (simp add: digits.simps[of n] digits_value_def digit_char_props)
  next
    case False
    with 1 have "digits_value (digits (n div 10)) = n div 10" by simp
    with False show ?thesis
      by (simp add: digits.simps[of n] digits_value_def digit_char_props)
  qed
qed

lemma parse_unsigned_digits: "parse_unsigned (digits n) = Some n"
proof -
  have tw: "takeWhile is_digit (digits n) = digits n"
    using digits_all_digit by simp
  show ?thesis
    unfolding parse_unsigned_def Let_def tw by (simp add: digits_nonempty digits_value_digits)
qed

lemma digits_hd: "\<exists>c r. digits n = c # r \<and> is_digit c"
  using digits_nonempty[of n] digits_all_digit[of n] by (cases "digits n") auto

lemma is_digit_not_special: "is_digit c \<Longrightarrow> \<not> is_space c \<and> c \<noteq> CHR ''-'' \<and> c \<noteq> CHR ''+''"
  by (auto simp: is_digit_def is_space_def)

text \<open>
  Below \<open>10^21\<close> in magnitude, \<open>parseInt\<close> reads back the integer that was rendered.
\<close>

lemma parseInt_Number_toString:
  assumes "\<bar>i\<bar> < 10 ^ 21"
  shows "parseInt (Number_toString i) = Some i"
proof -
  have small: "nat \<bar>i\<bar> < 10 ^ 21"
    using assms by (simp add: nat_less_iff)
  show ?thesis
  proof (cases "i < 0")
    case True
    have "\<not> is_space CHR ''-''" by (simp add: is_space_def)
    with True small show ?thesis
      by (simp add: parseInt_def Number_toString_def Let_def parse_unsigned_digits)
  next
    case False
    obtain c r where cr: "digits (nat \<bar>i\<bar>) = c # r" "is_digit c" using digits_hd by blast
    with False small is_digit_not_special[of c] parse_unsigned_digits[of "nat \<bar>i\<bar>"]
    show ?thesis
      by (simp add: parseInt_def Number_toString_def Let_def)
  qed
qed

lemma new_item_eventId:
  "\<bar>event_id ev\<bar> < 10 ^ 21 \<Longrightarrow> item_eventId (new_item n ev) = Some (event_id ev)"
  by (simp add: item_eventId_def new_item_def parseInt_Number_toString)

lemma makeHistoryItemSwipeable_fields [simp]:
  "currentTranslate (makeHistoryItemSwipeable it) = 0"
  "\<not> isDragging (makeHistoryItemSwipeable it)"
  "dataset_id (item (makeHistoryItemSwipeable it)) = dataset_id it"
  "node (item (makeHistoryItemSwipeable it)) = node it"
  "delete_ready (item (makeHistoryItemSwipeable it)) = delete_ready it"
  "style_transform (item (makeHistoryItemSwipeable it)) = style_transform it"
  "item_eventId (item (makeHistoryItemSwipeable it)) = item_eventId it"
  by (simp_all add: makeHistoryItemSwipeable_def item_eventId_def)

lemma sample_ids [simp]: "event_id event_a = 1000" "event_id event_b = 3000"
  by (simp_all add: event_a_def event_b_def make_event_def capture_a_def capture_b_def)

lemma item_a_eventId [simp]: "item_eventId item_a = Some 1000"
  by (simp add: item_a_def new_item_eventId)

lemma two_event_page_events [simp]: "events two_event_page = [event_a, event_b]"
  by (simp add: two_event_page_def eventButton_click_events[where m = MediaStream]
      camera_page_stream camera_page_events event_a_def event_b_def)

lemma initial_page_stream: "stream (initial_page ls ss) = None"
  by (simp add: initial_page_def)

section \<open>Capture without a camera\<close>

text \<open>
  Claim C9. When \<open>stream\<close> is \<open>null\<close>, the click handler of either variant of the page only
  shows the error notification \<open>Camera not available\<close>: the events in memory, both
  storages, the history and the opened windows stay as they were, and the only other
  change is the pending timer that hides the notification after three seconds.
\<close>

theorem capture_without_camera_is_noop:
  assumes "stream pg = None"
  shows "eventButton_click c pg = showNotification ''Camera not available'' True pg
     \<and> script_eventButton_click c pg = (None, showNotification ''Camera not available'' True pg)
     \<and> events (showNotification ''Camera not available'' True pg) = events pg
     \<and> localStorage (showNotification ''Camera not available'' True pg) = localStorage pg
     \<and> sessionStorage (showNotification ''Camera not available'' True pg) = sessionStorage pg
     \<and> history (showNotification ''Camera not available'' True pg) = history pg
     \<and> opened (showNotification ''Camera not available'' True pg) = opened pg
     \<and> notification_error (showNotification ''Camera not available'' True pg)
     \<and> timers (showNotification ''Camera not available'' True pg)
         = timers pg @ [(3000, HideNotification)]"
  using assms
  by (simp add: eventButton_click_def script_eventButton_click_def)
     (simp add: showNotification_def setTimeout_def)

theorem capture_without_camera_is_noop_witness:
  "stream (initial_page Map.empty Map.empty) = None
   \<and> events (eventButton_click capture_a (initial_page Map.empty Map.empty)) = []
   \<and> localStorage (eventButton_click capture_a (initial_page Map.empty Map.empty)) = Map.empty
   \<and> history (eventButton_click capture_a (initial_page Map.empty Map.empty)) = []
   \<and> fst (script_eventButton_click capture_a (initial_page Map.empty Map.empty)) = None"
  using capture_without_camera_is_noop[OF initial_page_stream, of capture_a Map.empty Map.empty]
  by (simp add: initial_page_def)

section \<open>Deleting twice\<close>

lemma deleteHistoryItem_twice:
  assumes "item_eventId it2 = item_eventId it"
  shows "events (snd (deleteHistoryItem (it2, snd (deleteHistoryItem (it, pg)))))
           = events (snd (deleteHistoryItem (it, pg)))"
    and "localStorage (snd (deleteHistoryItem (it2, snd (deleteHistoryItem (it, pg)))))
           = localStorage (snd (deleteHistoryItem (it, pg)))"
proof -
  let ?d1 = "snd (deleteHistoryItem (it, pg))"
  let ?kept = "events ?d1"
  let ?v = "JSON_stringify (JsEvents ?kept)"
  show e: "events (snd (deleteHistoryItem (it2, ?d1))) = ?kept"
    by (simp add: deleteHistoryItem_events assms)
  have second: "localStorage (snd (deleteHistoryItem (it2, ?d1)))
      = (if write_fits ?d1 ?kept then (localStorage ?d1)(LOCAL_STORAGE_KEY \<mapsto> ?v)
         else localStorage ?d1)"
    using deleteHistoryItem_localStorage[of it2 ?d1] by (simp only: e)
  show "localStorage (snd (deleteHistoryItem (it2, ?d1))) = localStorage ?d1"
  proof (cases "write_fits pg ?kept")
    case True
    then have "localStorage ?d1 = (localStorage pg)(LOCAL_STORAGE_KEY \<mapsto> ?v)"
      using deleteHistoryItem_localStorage[of it pg] by simp
    then have "(localStorage ?d1)(LOCAL_STORAGE_KEY \<mapsto> ?v) = localStorage ?d1"
      by simp
    with second show ?thesis by simp
  next
    case False
    then have same: "localStorage ?d1 = localStorage pg"
      using deleteHistoryItem_localStorage[of it pg] by simp
    then have "\<not> write_fits ?d1 ?kept"
      using False by (simp add: write_fits_def)
    with second show ?thesis by simp
  qed
qed

lemma deleteHistoryItem_absent:
  assumes "\<forall>ev\<in>set (events pg). Some (event_id ev) \<noteq> item_eventId it"
  shows "events (snd (deleteHistoryItem (it, pg))) = events pg"
    and "store_synced pg \<Longrightarrow> localStorage (snd (deleteHistoryItem (it, pg))) = localStorage pg"
proof -
  show e: "events (snd (deleteHistoryItem (it, pg))) = events pg"
    using assms by (simp add: deleteHistoryItem_events)
  assume "store_synced pg"
  then have "(localStorage pg) LOCAL_STORAGE_KEY = Some (JSON_stringify (JsEvents (events pg)))"
    by (simp add: store_synced_def getItem_def)
  then have "(localStorage pg)(LOCAL_STORAGE_KEY \<mapsto> JSON_stringify (JsEvents (events pg)))
      = localStorage pg"
    by (rule map_upd_triv)
  then show "localStorage (snd (deleteHistoryItem (it, pg))) = localStorage pg"
    by (subst deleteHistoryItem_localStorage) (simp add: e)
qed

text \<open>
  Claim C2. Deleting the same identifier a second time (through the same item or any item
  that carries the same identifier) leaves the events in memory and the local storage as
  the first deletion left them. Deleting an identifier that no event has leaves the events
  in memory unchanged, and leaves the local storage unchanged when it was in step with them
  (as it is after every mutation).
\<close>

theorem delete_is_idempotent:
  assumes "item_eventId it2 = item_eventId it"
  shows "events (snd (deleteHistoryItem (it2, snd (deleteHistoryItem (it, pg)))))
           = events (snd (deleteHistoryItem (it, pg)))
     \<and> localStorage (snd (deleteHistoryItem (it2, snd (deleteHistoryItem (it, pg)))))
           = localStorage (snd (deleteHistoryItem (it, pg)))
     \<and> ((\<forall>ev\<in>set (events pg). Some (event_id ev) \<noteq> item_eventId it) \<longrightarrow>
            events (snd (deleteHistoryItem (it, pg))) = events pg
          \<and> (store_synced pg \<longrightarrow>
                localStorage (snd (deleteHistoryItem (it, pg))) = localStorage pg))"
  using deleteHistoryItem_twice[OF assms, of pg] deleteHistoryItem_absent[of pg it]
  by blast

lemma two_event_page_quota: "localQuota two_event_page = (\<lambda>st. True)"
  by (simp add: two_event_page_def eventButton_click_quota camera_page_quota)

lemma two_event_page_synced: "store_synced two_event_page"
  unfolding two_event_page_def
proof (rule eventButton_click_synced[where m = MediaStream])
  show "stream (eventButton_click capture_a camera_page) = Some MediaStream"
    by (simp add: eventButton_click_events[where m = MediaStream] camera_page_stream)
  show "write_fits (eventButton_click capture_a camera_page)
      (events (eventButton_click capture_a camera_page) @ [make_event capture_b])"
    by (rule unlimited_room_fits) (simp add: eventButton_click_quota camera_page_quota)
qed

lemma once_deleted_events:
  "events (snd (deleteHistoryItem (item_a, two_event_page))) = [event_b]"
  by (simp add: deleteHistoryItem_events)

theorem delete_is_idempotent_witness:
  "item_eventId item_a = item_eventId item_a
     \<and> events (snd (deleteHistoryItem (item_a, two_event_page))) = [event_b]
     \<and> Some (event_id event_b) \<noteq> item_eventId item_a
     \<and> store_synced (snd (deleteHistoryItem (item_a, two_event_page)))
     \<and> events (snd (deleteHistoryItem (item_a, snd (deleteHistoryItem (item_a, two_event_page)))))
           = [event_b]
     \<and> localStorage (snd (deleteHistoryItem (item_a, snd (deleteHistoryItem (item_a, two_event_page)))))
           = localStorage (snd (deleteHistoryItem (item_a, two_event_page)))"
  using delete_is_idempotent[of item_a item_a "snd (deleteHistoryItem (item_a, two_event_page))"]
    delete_is_idempotent[of item_a item_a two_event_page]
    deleteHistoryItem_synced[OF unlimited_room_fits[OF two_event_page_quota], of item_a]
  by (simp add: once_deleted_events)


section \<open>Loading\<close>

lemma fold_addEventToHistory_store [simp]:
  "events (fold addEventToHistory es pg) = events pg"
  "localStorage (fold addEventToHistory es pg) = localStorage pg"
  by (induction es arbitrary: pg) simp_all

lemma fold_script_addEventToHistory_store [simp]:
  "events (fold script_addEventToHistory es pg) = events pg"
  "localStorage (fold script_addEventToHistory es pg) = localStorage pg"
  by (induction es arbitrary: pg) simp_all

lemma loadEvents_absent:
  assumes "getItem (localStorage pg) LOCAL_STORAGE_KEY = None
     \<or> getItem (localStorage pg) LOCAL_STORAGE_KEY = Some (Malformed [])"
  shows "loadEvents pg = Inr (makeHistoryItemsSwipeable pg)" and "script_loadEvents pg = Inr pg"
  using assms by (auto simp add: loadEvents_def script_loadEvents_def)

lemma loadEvents_not_json:
  assumes "getItem (localStorage pg) LOCAL_STORAGE_KEY = Some (Malformed t)" and "t \<noteq> []"
  shows "loadEvents pg = Inl SyntaxError" and "script_loadEvents pg = Inl SyntaxError"
  using assms by (simp_all add: loadEvents_def script_loadEvents_def)

lemma loadEvents_not_array:
  assumes "getItem (localStorage pg) LOCAL_STORAGE_KEY = Some (Serialized (JsDashboardEvent d))"
  shows "loadEvents pg = Inl TypeError" and "script_loadEvents pg = Inl TypeError"
  using assms by (simp_all add: loadEvents_def script_loadEvents_def)

lemma loadEvents_events:
  assumes "getItem (localStorage pg) LOCAL_STORAGE_KEY = Some (JSON_stringify (JsEvents es))"
  shows "loadEvents pg
           = Inr (makeHistoryItemsSwipeable (fold addEventToHistory es (pg\<lparr>events := es\<rparr>)))"
  using assms by (simp add: loadEvents_def JSON_stringify_def)

lemma updateCurrentTime_storage [simp]:
  "localStorage (updateCurrentTime now pg) = localStorage pg"
  "events (updateCurrentTime now pg) = events pg"
  by (simp_all add: updateCurrentTime_def)

lemma reloaded_events_synced:
  assumes "store_synced pg"
  shows "reloaded_events now pg = Inr (events pg)"
proof -
  let ?p = "updateCurrentTime now
      ((initial_page (localStorage pg) (sessionStorage pg))
         \<lparr>localQuota := localQuota pg, sessionQuota := sessionQuota pg\<rparr>)"
  have "getItem (localStorage ?p) LOCAL_STORAGE_KEY = Some (JSON_stringify (JsEvents (events pg)))"
    using assms by (simp add: store_synced_def initial_page_def)
  from loadEvents_events[OF this] show ?thesis
    by (simp add: reloaded_events_def reload_def DOMContentLoaded_def)
qed

text \<open>
  Claim C3, as the code has it. When nothing is stored under the key, or the empty string
  is, \<open>loadEvents\<close> returns with the events in memory as they were and nothing shown (it
  only makes the history items swipeable once more), and the load handler goes on to start
  the clock. When the stored text is not JSON,
  \<open>JSON.parse\<close> throws \<open>SyntaxError\<close>; when it is JSON for a value that is not an array,
  \<open>events.forEach\<close> throws \<open>TypeError\<close>. Neither handler catches the exception, so it
  leaves \<open>loadEvents\<close> and the load handler, in both variants of the page.
\<close>

theorem load_absent_or_malformed:
  "(getItem (localStorage pg) LOCAL_STORAGE_KEY = None
      \<or> getItem (localStorage pg) LOCAL_STORAGE_KEY = Some (Malformed []) \<longrightarrow>
        loadEvents pg = Inr (makeHistoryItemsSwipeable pg)
      \<and> events (makeHistoryItemsSwipeable pg) = events pg
      \<and> notification_shown (makeHistoryItemsSwipeable pg) = notification_shown pg
      \<and> script_loadEvents pg = Inr pg
      \<and> DOMContentLoaded now pg
           = Inr (makeHistoryItemsSwipeable
                   ((makeHistoryItemsSwipeable (updateCurrentTime now pg))\<lparr>clock_interval := True\<rparr>))
      \<and> script_DOMContentLoaded now pg
           = Inr ((updateCurrentTime now pg)\<lparr>clock_interval := True\<rparr>))
   \<and> (getItem (localStorage pg) LOCAL_STORAGE_KEY = Some (Malformed t) \<and> t \<noteq> [] \<longrightarrow>
        loadEvents pg = Inl SyntaxError \<and> script_loadEvents pg = Inl SyntaxError
      \<and> DOMContentLoaded now pg = Inl SyntaxError
      \<and> script_DOMContentLoaded now pg = Inl SyntaxError)
   \<and> (getItem (localStorage pg) LOCAL_STORAGE_KEY = Some (Serialized (JsDashboardEvent d)) \<longrightarrow>
        loadEvents pg = Inl TypeError \<and> script_loadEvents pg = Inl TypeError
      \<and> DOMContentLoaded now pg = Inl TypeError
      \<and> script_DOMContentLoaded now pg = Inl TypeError)"
proof (intro conjI impI)
  assume a: "getItem (localStorage pg) LOCAL_STORAGE_KEY = None
      \<or> getItem (localStorage pg) LOCAL_STORAGE_KEY = Some (Malformed [])"
  show "loadEvents pg = Inr (makeHistoryItemsSwipeable pg)" "script_loadEvents pg = Inr pg"
    using loadEvents_absent[OF a] by simp_all
  show "events (makeHistoryItemsSwipeable pg) = events pg"
    "notification_shown (makeHistoryItemsSwipeable pg) = notification_shown pg"
    by simp_all
  have a': "getItem (localStorage (updateCurrentTime now pg)) LOCAL_STORAGE_KEY = None
      \<or> getItem (localStorage (updateCurrentTime now pg)) LOCAL_STORAGE_KEY = Some (Malformed [])"
    using a by simp
  show "DOMContentLoaded now pg
      = Inr (makeHistoryItemsSwipeable
              ((makeHistoryItemsSwipeable (updateCurrentTime now pg))\<lparr>clock_interval := True\<rparr>))"
    "script_DOMContentLoaded now pg = Inr ((updateCurrentTime now pg)\<lparr>clock_interval := True\<rparr>)"
    using loadEvents_absent[OF a']
    by (simp_all add: DOMContentLoaded_def script_DOMContentLoaded_def)
next
  assume a: "getItem (localStorage pg) LOCAL_STORAGE_KEY = Some (Malformed t) \<and> t \<noteq> []"
  then have a': "getItem (localStorage (updateCurrentTime now pg)) LOCAL_STORAGE_KEY
      = Some (Malformed t)" "t \<noteq> []"
    by simp_all
  show "loadEvents pg = Inl SyntaxError" "script_loadEvents pg = Inl SyntaxError"
    using a loadEvents_not_json[of pg t] by simp_all
  show "DOMContentLoaded now pg = Inl SyntaxError" "script_DOMContentLoaded now pg = Inl SyntaxError"
    using loadEvents_not_json[OF a']
    by (simp_all add: DOMContentLoaded_def script_DOMContentLoaded_def)
next
  assume a: "getItem (localStorage pg) LOCAL_STORAGE_KEY = Some (Serialized (JsDashboardEvent d))"
  then have a': "getItem (localStorage (updateCurrentTime now pg)) LOCAL_STORAGE_KEY
      = Some (Serialized (JsDashboardEvent d))"
    by simp
  show "loadEvents pg = Inl TypeError" "script_loadEvents pg = Inl TypeError"
    using loadEvents_not_array[OF a] by simp_all
  show "DOMContentLoaded now pg = Inl TypeError" "script_DOMContentLoaded now pg = Inl TypeError"
    using loadEvents_not_array[OF a']
    by (simp_all add: DOMContentLoaded_def script_DOMContentLoaded_def)
qed

theorem load_absent_or_malformed_witness:
  "getItem (localStorage (initial_page Map.empty Map.empty)) LOCAL_STORAGE_KEY = None
   \<and> loadEvents (initial_page Map.empty Map.empty) = Inr (initial_page Map.empty Map.empty)
   \<and> getItem (localStorage (initial_page [LOCAL_STORAGE_KEY \<mapsto> Malformed ''{oops''] Map.empty))
        LOCAL_STORAGE_KEY = Some (Malformed ''{oops'')
   \<and> ''{oops'' \<noteq> []
   \<and> DOMContentLoaded ''10:00:00''
        (initial_page [LOCAL_STORAGE_KEY \<mapsto> Malformed ''{oops''] Map.empty) = Inl SyntaxError
   \<and> getItem (localStorage (initial_page [LOCAL_STORAGE_KEY \<mapsto>
          Serialized (JsDashboardEvent \<lparr> dashboard_id = 1000, dashboard_timestamp = [],
            dashboard_cameraName = CAMERA_NAME, dashboard_imageData = [] \<rparr>)] Map.empty))
        LOCAL_STORAGE_KEY
        = Some (Serialized (JsDashboardEvent \<lparr> dashboard_id = 1000, dashboard_timestamp = [],
            dashboard_cameraName = CAMERA_NAME, dashboard_imageData = [] \<rparr>))
   \<and> loadEvents (initial_page [LOCAL_STORAGE_KEY \<mapsto>
          Serialized (JsDashboardEvent \<lparr> dashboard_id = 1000, dashboard_timestamp = [],
            dashboard_cameraName = CAMERA_NAME, dashboard_imageData = [] \<rparr>)] Map.empty)
        = Inl TypeError"
  using load_absent_or_malformed[of "initial_page Map.empty Map.empty" "''10:00:00''" "[]"
      "\<lparr> dashboard_id = 1000, dashboard_timestamp = [],
            dashboard_cameraName = CAMERA_NAME, dashboard_imageData = [] \<rparr>"]
    load_absent_or_malformed[of "initial_page [LOCAL_STORAGE_KEY \<mapsto> Malformed ''{oops''] Map.empty"
      "''10:00:00''" "''{oops''"
      "\<lparr> dashboard_id = 1000, dashboard_timestamp = [],
            dashboard_cameraName = CAMERA_NAME, dashboard_imageData = [] \<rparr>"]
    load_absent_or_malformed[of "initial_page [LOCAL_STORAGE_KEY \<mapsto>
          Serialized (JsDashboardEvent \<lparr> dashboard_id = 1000, dashboard_timestamp = [],
            dashboard_cameraName = CAMERA_NAME, dashboard_imageData = [] \<rparr>)] Map.empty"
      "''10:00:00''" "[]"
      "\<lparr> dashboard_id = 1000, dashboard_timestamp = [],
            dashboard_cameraName = CAMERA_NAME, dashboard_imageData = [] \<rparr>"]
  by (simp add: initial_page_def getItem_def makeHistoryItemsSwipeable_def)

text \<open>
  The claim as the specification states it fails on text that is not JSON: over a storage
  that holds \<open>{oops\<close> under the key, \<open>loadEvents\<close> and the load handler end with
  \<open>SyntaxError\<close> instead of returning with an empty collection.
\<close>

theorem load_malformed_counterexample:
  "loadEvents (initial_page [LOCAL_STORAGE_KEY \<mapsto> Malformed ''{oops''] Map.empty)
     = Inl SyntaxError
   \<and> script_loadEvents (initial_page [LOCAL_STORAGE_KEY \<mapsto> Malformed ''{oops''] Map.empty)
     = Inl SyntaxError
   \<and> DOMContentLoaded ''10:00:00''
        (initial_page [LOCAL_STORAGE_KEY \<mapsto> Malformed ''{oops''] Map.empty)
     = Inl SyntaxError"
  by (simp add: loadEvents_def script_loadEvents_def DOMContentLoaded_def initial_page_def
      getItem_def updateCurrentTime_def)


section \<open>The recognizer\<close>

lemma handleTouchStart_fields [simp]:
  "startX (handleTouchStart x s) = Some x"
  "isDragging (handleTouchStart x s)"
  "currentTranslate (handleTouchStart x s) = currentTranslate s"
  "delete_ready (item (handleTouchStart x s)) = delete_ready (item s)"
  "style_transform (item (handleTouchStart x s)) = style_transform (item s)"
  "dataset_id (item (handleTouchStart x s)) = dataset_id (item s)"
  "node (item (handleTouchStart x s)) = node (item s)"
  by (simp_all add: handleTouchStart_def)

lemma handleMouseDown_fields [simp]:
  "startX (handleMouseDown x s) = Some x"
  "isDragging (handleMouseDown x s)"
  "documentListeners (handleMouseDown x s)"
  "currentTranslate (handleMouseDown x s) = currentTranslate s"
  "delete_ready (item (handleMouseDown x s)) = delete_ready (item s)"
  "style_transform (item (handleMouseDown x s)) = style_transform (item s)"
  "dataset_id (item (handleMouseDown x s)) = dataset_id (item s)"
  "node (item (handleMouseDown x s)) = node (item s)"
  by (simp_all add: handleMouseDown_def)

text \<open>The touch and the mouse move handlers do the same to the recognizer.\<close>

lemma touch_is_mouse_move: "fst (handleTouchMove x s) = handleMouseMove x s"
  by (simp add: handleTouchMove_def handleMouseMove_def Let_def split: option.splits)

lemma handleMouseMove_dragging:
  "isDragging s \<Longrightarrow> startX s = Some x0 \<Longrightarrow>
   handleMouseMove x s =
     (if x - x0 < 0 then apply_translate (x - x0) (s\<lparr>moveX := Some x\<rparr>)
      else s\<lparr>moveX := Some x\<rparr>)"
  by (simp add: handleMouseMove_def diffX_def Let_def)

lemma handleMouseMove_keeps [simp]:
  "startX (handleMouseMove x s) = startX s"
  "isDragging (handleMouseMove x s) = isDragging s"
  "documentListeners (handleMouseMove x s) = documentListeners s"
  "dataset_id (item (handleMouseMove x s)) = dataset_id (item s)"
  "node (item (handleMouseMove x s)) = node (item s)"
  by (simp_all add: handleMouseMove_def apply_translate_def Let_def split: option.splits)

lemma fold_moves_keeps [simp]:
  "startX (fold handleMouseMove xs s) = startX s"
  "isDragging (fold handleMouseMove xs s) = isDragging s"
  "documentListeners (fold handleMouseMove xs s) = documentListeners s"
  "dataset_id (item (fold handleMouseMove xs s)) = dataset_id (item s)"
  "node (item (fold handleMouseMove xs s)) = node (item s)"
  by (induction xs arbitrary: s) simp_all

lemma touch_drag_moves: "touch_drag x0 xs s = fold handleMouseMove xs (handleTouchStart x0 s)"
proof -
  have "(\<lambda>x r. fst (handleTouchMove x r)) = handleMouseMove"
    by (intro ext) (rule touch_is_mouse_move)
  then show ?thesis by (simp add: touch_drag_def)
qed

lemma drag_keeps [simp]:
  "dataset_id (item (touch_drag x0 xs s)) = dataset_id (item s)"
  "node (item (touch_drag x0 xs s)) = node (item s)"
  "isDragging (touch_drag x0 xs s)"
  "startX (touch_drag x0 xs s) = Some x0"
  "dataset_id (item (mouse_drag x0 xs s)) = dataset_id (item s)"
  "node (item (mouse_drag x0 xs s)) = node (item s)"
  "isDragging (mouse_drag x0 xs s)"
  "startX (mouse_drag x0 xs s) = Some x0"
  "documentListeners (mouse_drag x0 xs s)"
  by (simp_all add: touch_drag_moves mouse_drag_def)

text \<open>What the drag-end handlers do on each side of the test \<open>currentTranslate < -100\<close>.\<close>

lemma handleTouchEnd_commit:
  assumes "currentTranslate s < - 100"
  shows "snd (handleTouchEnd (s, pg))
           = snd (deleteHistoryItem ((item s)\<lparr>style_transition := TransitionTransformEase\<rparr>, pg))"
  using assms by (simp add: handleTouchEnd_def Let_def split: prod.splits)

lemma handleMouseUp_commit:
  assumes "currentTranslate s < - 100" and "isDragging s"
  shows "snd (handleMouseUp (s, pg))
           = snd (deleteHistoryItem ((item s)\<lparr>style_transition := TransitionTransformEase\<rparr>, pg))"
  using assms by (simp add: handleMouseUp_def Let_def split: prod.splits)

lemma handleTouchEnd_revert:
  assumes "\<not> currentTranslate s < - 100"
  shows "snd (handleTouchEnd (s, pg)) = pg"
    and "currentTranslate (fst (handleTouchEnd (s, pg))) = 0"
    and "style_transform (item (fst (handleTouchEnd (s, pg)))) = TranslateX_zero"
    and "\<not> delete_ready (item (fst (handleTouchEnd (s, pg))))"
    and "\<not> isDragging (fst (handleTouchEnd (s, pg)))"
  using assms by (simp_all add: handleTouchEnd_def reset_position_def Let_def)

lemma handleMouseUp_revert:
  assumes "\<not> currentTranslate s < - 100"
  shows "snd (handleMouseUp (s, pg)) = pg"
    and "isDragging s \<Longrightarrow> currentTranslate (fst (handleMouseUp (s, pg))) = 0"
    and "isDragging s \<Longrightarrow>
           style_transform (item (fst (handleMouseUp (s, pg)))) = TranslateX_zero"
    and "isDragging s \<Longrightarrow> \<not> delete_ready (item (fst (handleMouseUp (s, pg))))"
    and "\<not> isDragging (fst (handleMouseUp (s, pg)))"
  using assms by (simp_all add: handleMouseUp_def reset_position_def Let_def)

lemma item_eventId_transition [simp]:
  "item_eventId (it\<lparr>style_transition := t\<rparr>) = item_eventId it"
  by (simp add: item_eventId_def)

lemma run_timer_store [simp]:
  "events (run_timer t pg) = events pg"
  "localStorage (run_timer t pg) = localStorage pg"
  by (cases t; simp)+

lemma fire_timer_store [simp]:
  "events (fire_timer j pg) = events pg"
  "localStorage (fire_timer j pg) = localStorage pg"
  by (simp_all add: fire_timer_def)

section \<open>Committing a deletion\<close>

lemma item_shows:
  assumes "dataset_id it = Some (Number_toString k)" and "\<bar>k\<bar> < 10 ^ 21"
  shows "item_eventId it = Some k"
  using assms by (simp add: item_eventId_def parseInt_Number_toString)

lemma reloaded_events_stored:
  assumes "getItem (localStorage pg) LOCAL_STORAGE_KEY = Some (JSON_stringify (JsEvents es))"
  shows "reloaded_events now pg = Inr es"
proof -
  let ?p = "updateCurrentTime now
      ((initial_page (localStorage pg) (sessionStorage pg))
         \<lparr>localQuota := localQuota pg, sessionQuota := sessionQuota pg\<rparr>)"
  have "getItem (localStorage ?p) LOCAL_STORAGE_KEY = Some (JSON_stringify (JsEvents es))"
    using assms by (simp add: initial_page_def)
  from loadEvents_events[OF this] show ?thesis
    by (simp add: reloaded_events_def reload_def DOMContentLoaded_def)
qed

text \<open>
  Claim C1, as the code has it. When the drag-end handler (touch end, or mouse up during a
  drag) finds \<open>currentTranslate < -100\<close> on an item that carries the identifier \<open>k\<close> of a
  clock reading, then on its return the events in memory are those of before without the
  events of identifier \<open>k\<close>. When the write of that list fits, the storage key holds
  exactly that list, the item is still in the history with its removal pending on a timer
  of 300 ms, and loading the page again over the storage as it is then, or as it is after
  any pending timer has fired, gives exactly that list. When the write does not fit,
  \<open>setItem\<close> throws: the handler ends with the exception uncaught, no removal is
  scheduled, the storage is as it was, and loading the page again gives what it gave before
  the deletion.
\<close>

theorem commit_persists_when_written:
  assumes "currentTranslate s < - 100"
    and "dataset_id (item s) = Some (Number_toString k)" and "\<bar>k\<bar> < 10 ^ 21"
    and "ended = handleTouchEnd (s, pg) \<or> isDragging s \<and> ended = handleMouseUp (s, pg)"
  shows "events (snd ended) = filter (\<lambda>ev. event_id ev \<noteq> k) (events pg)
     \<and> (write_fits pg (filter (\<lambda>ev. event_id ev \<noteq> k) (events pg)) \<longrightarrow>
          localStorage (snd ended)
            = (localStorage pg)(LOCAL_STORAGE_KEY \<mapsto>
                JSON_stringify (JsEvents (filter (\<lambda>ev. event_id ev \<noteq> k) (events pg))))
        \<and> store_synced (snd ended)
        \<and> history (snd ended) = history pg
        \<and> timers (snd ended) = timers pg @ [(300, RemoveItem (node (item s)))]
        \<and> uncaught (snd ended) = uncaught pg
        \<and> reloaded_events now (snd ended) = Inr (filter (\<lambda>ev. event_id ev \<noteq> k) (events pg))
        \<and> reloaded_events now (fire_timer j (snd ended))
            = Inr (filter (\<lambda>ev. event_id ev \<noteq> k) (events pg)))
     \<and> (\<not> write_fits pg (filter (\<lambda>ev. event_id ev \<noteq> k) (events pg)) \<longrightarrow>
          localStorage (snd ended) = localStorage pg
        \<and> history (snd ended) = history pg
        \<and> timers (snd ended) = timers pg
        \<and> uncaught (snd ended) = uncaught pg @ [QuotaExceededError]
        \<and> reloaded_events now (snd ended) = reloaded_events now pg)"
proof -
  let ?it = "(item s)\<lparr>style_transition := TransitionTransformEase\<rparr>"
  let ?kept = "filter (\<lambda>ev. event_id ev \<noteq> k) (events pg)"
  have id: "item_eventId (item s) = Some k"
    by (rule item_shows[OF assms(2,3)])
  have kept: "filter (\<lambda>ev. Some (event_id ev) \<noteq> item_eventId ?it) (events pg) = ?kept"
    by (simp add: id)
  have ended: "snd ended = snd (deleteHistoryItem (?it, pg))"
    using assms(1,4) handleTouchEnd_commit[of s pg] handleMouseUp_commit[of s pg] by auto
  have memory: "events (snd ended) = ?kept"
    unfolding ended by (simp add: deleteHistoryItem_events id)
  have written: "write_fits pg ?kept \<Longrightarrow>
      localStorage (snd ended)
          = (localStorage pg)(LOCAL_STORAGE_KEY \<mapsto> JSON_stringify (JsEvents ?kept))
      \<and> store_synced (snd ended)
      \<and> history (snd ended) = history pg
      \<and> timers (snd ended) = timers pg @ [(300, RemoveItem (node (item s)))]
      \<and> uncaught (snd ended) = uncaught pg
      \<and> reloaded_events now (snd ended) = Inr ?kept
      \<and> reloaded_events now (fire_timer j (snd ended)) = Inr ?kept"
  proof -
    assume "write_fits pg ?kept"
    then have fits: "write_fits pg
        (filter (\<lambda>ev. Some (event_id ev) \<noteq> item_eventId ?it) (events pg))"
      by (simp only: kept)
    note accepted = deleteHistoryItem_accepted[OF fits]
    have storage: "localStorage (snd ended)
        = (localStorage pg)(LOCAL_STORAGE_KEY \<mapsto> JSON_stringify (JsEvents ?kept))"
      unfolding ended by (simp add: accepted setTimeout_def id)
    have display: "history (snd ended) = history pg"
      "timers (snd ended) = timers pg @ [(300, RemoveItem (node (item s)))]"
      "uncaught (snd ended) = uncaught pg"
      unfolding ended by (simp_all add: accepted setTimeout_def)
    have synced: "store_synced (snd ended)"
      by (simp add: store_synced_def getItem_def storage memory)
    have "store_synced (fire_timer j (snd ended))"
      using synced by (simp add: store_synced_def)
    then have "reloaded_events now (fire_timer j (snd ended)) = Inr ?kept"
      using reloaded_events_synced[of "fire_timer j (snd ended)" now] memory by simp
    with storage synced display reloaded_events_synced[OF synced, of now] memory
    show ?thesis by simp
  qed
  have thrown: "\<not> write_fits pg ?kept \<Longrightarrow>
      localStorage (snd ended) = localStorage pg
      \<and> history (snd ended) = history pg
      \<and> timers (snd ended) = timers pg
      \<and> uncaught (snd ended) = uncaught pg @ [QuotaExceededError]
      \<and> reloaded_events now (snd ended) = reloaded_events now pg"
  proof -
    assume "\<not> write_fits pg ?kept"
    then have full: "\<not> write_fits pg
        (filter (\<lambda>ev. Some (event_id ev) \<noteq> item_eventId ?it) (events pg))"
      using kept by simp
    note rejected = deleteHistoryItem_rejected[OF full]
    show ?thesis
      unfolding ended
      by (simp add: rejected uncaught_exception_def reloaded_events_def reload_def)
  qed
  from memory written thrown show ?thesis by blast
qed

lemma dragged_a_fields:
  "currentTranslate dragged_a = - 120"
  "dataset_id (item dragged_a) = Some (Number_toString 1000)"
  "delete_ready (item dragged_a)"
  by (simp_all add: dragged_a_def touch_drag_moves handleMouseMove_dragging[where ?x0.0 = 200]
      apply_translate_def makeHistoryItemSwipeable_def item_a_def new_item_def)

lemma overfull_delete_full:
  "\<not> write_fits overfull_page (filter (\<lambda>ev. event_id ev \<noteq> 1000) (events overfull_page))"
  by (simp add: image_room_fits[OF overfull_page_fields(4)] overfull_page_fields(2)
      make_event_def capture_a_def capture_big_def)

theorem commit_persists_when_written_witness:
  "currentTranslate dragged_a < - 100
     \<and> dataset_id (item dragged_a) = Some (Number_toString 1000)
     \<and> \<bar>1000 :: int\<bar> < 10 ^ 21
     \<and> write_fits two_event_page (filter (\<lambda>ev. event_id ev \<noteq> 1000) (events two_event_page))
     \<and> events (snd (handleTouchEnd (dragged_a, two_event_page))) = [event_b]
     \<and> store_synced (snd (handleTouchEnd (dragged_a, two_event_page)))
     \<and> history (snd (handleTouchEnd (dragged_a, two_event_page))) = history two_event_page
     \<and> reloaded_events ''10:00:05'' (snd (handleTouchEnd (dragged_a, two_event_page)))
          = Inr [event_b]
     \<and> \<not> write_fits overfull_page
            (filter (\<lambda>ev. event_id ev \<noteq> 1000) (events overfull_page))
     \<and> localStorage (snd (handleTouchEnd (dragged_a, overfull_page)))
          = localStorage overfull_page
     \<and> timers (snd (handleTouchEnd (dragged_a, overfull_page))) = timers overfull_page"
proof -
  have commit: "currentTranslate dragged_a < - 100"
    and shown: "dataset_id (item dragged_a) = Some (Number_toString 1000)"
    by (simp_all add: dragged_a_fields)
  have clock: "\<bar>1000 :: int\<bar> < 10 ^ 21" by simp
  have kept: "filter (\<lambda>ev. event_id ev \<noteq> 1000) (events two_event_page) = [event_b]"
    by simp
  have fits: "write_fits two_event_page
      (filter (\<lambda>ev. event_id ev \<noteq> 1000) (events two_event_page))"
    by (rule unlimited_room_fits[OF two_event_page_quota])
  have touch: "handleTouchEnd (dragged_a, pg) = handleTouchEnd (dragged_a, pg)
      \<or> isDragging dragged_a \<and> handleTouchEnd (dragged_a, pg) = handleMouseUp (dragged_a, pg)"
    for pg
    by simp
  note accepted = commit_persists_when_written[OF commit shown clock touch,
      of two_event_page "''10:00:05''" 0]
  note rejected = commit_persists_when_written[OF commit shown clock touch,
      of overfull_page "''10:00:05''" 0]
  have a1: "events (snd (handleTouchEnd (dragged_a, two_event_page))) = [event_b]"
    using accepted[THEN conjunct1] by (simp only: kept)
  have a2: "store_synced (snd (handleTouchEnd (dragged_a, two_event_page)))"
    "history (snd (handleTouchEnd (dragged_a, two_event_page))) = history two_event_page"
    "reloaded_events ''10:00:05'' (snd (handleTouchEnd (dragged_a, two_event_page)))
       = Inr (filter (\<lambda>ev. event_id ev \<noteq> 1000) (events two_event_page))"
    using accepted fits by blast+
  have a3: "reloaded_events ''10:00:05'' (snd (handleTouchEnd (dragged_a, two_event_page)))
       = Inr [event_b]"
    using a2(3) by (simp only: kept)
  have r1: "localStorage (snd (handleTouchEnd (dragged_a, overfull_page)))
      = localStorage overfull_page"
    "timers (snd (handleTouchEnd (dragged_a, overfull_page))) = timers overfull_page"
    using rejected overfull_delete_full by blast+
  from commit shown clock fits a1 a2(1,2) a3 overfull_delete_full r1
  show ?thesis by (intro conjI)
qed

text \<open>
  The claim as the specification states it fails when the write of the deletion does not
  fit. On the page whose second capture was not written, memory holds the first event and
  the larger second one, and the storage the first only. A committed swipe on the item of
  the first event removes it from memory; the write of the list that is left, the larger
  event, throws. The storage still holds the deleted event, no removal is scheduled, and
  loading the page again shows the deleted event.
\<close>

theorem full_storage_delete_counterexample:
  "currentTranslate dragged_a < - 100
     \<and> item_eventId (item dragged_a) = Some 1000
     \<and> event_id (make_event capture_a) = 1000
     \<and> events overfull_page = [make_event capture_a, make_event capture_big]
     \<and> events (snd (handleTouchEnd (dragged_a, overfull_page))) = [make_event capture_big]
     \<and> getItem (localStorage (snd (handleTouchEnd (dragged_a, overfull_page)))) LOCAL_STORAGE_KEY
          = Some (JSON_stringify (JsEvents [make_event capture_a]))
     \<and> timers (snd (handleTouchEnd (dragged_a, overfull_page))) = timers overfull_page
     \<and> reloaded_events ''10:00:05'' (snd (handleTouchEnd (dragged_a, overfull_page)))
          = Inr [make_event capture_a]"
proof -
  let ?it = "(item dragged_a)\<lparr>style_transition := TransitionTransformEase\<rparr>"
  have commit: "currentTranslate dragged_a < - 100"
    by (simp add: dragged_a_fields)
  have id: "item_eventId (item dragged_a) = Some 1000"
    by (rule item_shows[OF dragged_a_fields(2)]) simp
  have one: "event_id (make_event capture_a) = 1000" "event_id (make_event capture_big) = 5000"
    by (simp_all add: make_event_def capture_a_def capture_big_def)
  have kept: "filter (\<lambda>ev. Some (event_id ev) \<noteq> item_eventId ?it) (events overfull_page)
      = [make_event capture_big]"
    by (simp add: id overfull_page_fields(2) one)
  have full: "\<not> write_fits overfull_page
      (filter (\<lambda>ev. Some (event_id ev) \<noteq> item_eventId ?it) (events overfull_page))"
    unfolding kept
    by (simp add: image_room_fits[OF overfull_page_fields(4)] sample_images)
  have ended: "snd (handleTouchEnd (dragged_a, overfull_page))
      = uncaught_exception QuotaExceededError
          (overfull_page\<lparr>events := [make_event capture_big]\<rparr>)"
    using handleTouchEnd_commit[OF commit, of overfull_page]
      deleteHistoryItem_rejected[OF full]
    by (simp add: id overfull_page_fields(2) one)
  have stored: "getItem (localStorage (snd (handleTouchEnd (dragged_a, overfull_page))))
      LOCAL_STORAGE_KEY = Some (JSON_stringify (JsEvents [make_event capture_a]))"
    by (simp add: ended overfull_page_fields(3))
  have "events (snd (handleTouchEnd (dragged_a, overfull_page))) = [make_event capture_big]"
    "timers (snd (handleTouchEnd (dragged_a, overfull_page))) = timers overfull_page"
    by (simp_all add: ended)
  with commit id one(1) overfull_page_fields(2) stored reloaded_events_stored[OF stored]
  show ?thesis by (intro conjI)
qed

section \<open>Drag paths\<close>

lemma commit_invariant_move: "commit_invariant s \<Longrightarrow> commit_invariant (handleMouseMove x s)"
  by (simp add: commit_invariant_def handleMouseMove_def apply_translate_def Let_def
      split: option.splits)

lemma commit_invariant_touch_end:
  "commit_invariant s \<Longrightarrow> commit_invariant (fst (handleTouchEnd (s, pg)))"
  by (simp add: commit_invariant_def handleTouchEnd_def reset_position_def Let_def
      deleteHistoryItem_def split: prod.splits sum.splits)

lemma commit_invariant_mouse_up:
  "commit_invariant s \<Longrightarrow> commit_invariant (fst (handleMouseUp (s, pg)))"
  by (simp add: commit_invariant_def handleMouseUp_def reset_position_def Let_def
      deleteHistoryItem_def split: prod.splits sum.splits)

text \<open>Every recognizer that can arise satisfies the invariant: rule induction.\<close>

lemma reachable_commit_invariant: "reachable s \<Longrightarrow> commit_invariant s"
proof (induction rule: reachable.induct)
  case (created it)
  show ?case by (simp add: commit_invariant_def makeHistoryItemSwipeable_def)
next
  case (touch_start s x)
  then show ?case by (simp add: commit_invariant_def)
next
  case (touch_move s x)
  then show ?case by (simp add: touch_is_mouse_move commit_invariant_move)
next
  case (touch_end s pg)
  then show ?case by (simp add: commit_invariant_touch_end)
next
  case (mouse_down s x)
  then show ?case by (simp add: commit_invariant_def)
next
  case (mouse_move s x)
  then show ?case by (simp add: commit_invariant_move)
next
  case (mouse_up s pg)
  then show ?case by (simp add: commit_invariant_mouse_up)
qed

lemma reachable_touch_drag: "reachable s \<Longrightarrow> reachable (touch_drag x0 xs s)"
proof -
  have "reachable r \<Longrightarrow> reachable (fold (\<lambda>x r. fst (handleTouchMove x r)) xs r)" for r
    by (induction xs arbitrary: r) (simp_all add: reachable.touch_move)
  then show "reachable s \<Longrightarrow> reachable (touch_drag x0 xs s)"
    by (simp add: touch_drag_def reachable.touch_start)
qed

lemma reachable_mouse_drag: "reachable s \<Longrightarrow> reachable (mouse_drag x0 xs s)"
proof -
  have "reachable r \<Longrightarrow> documentListeners r \<Longrightarrow> reachable (fold handleMouseMove xs r)" for r
    by (induction xs arbitrary: r) (simp_all add: reachable.mouse_move)
  then show "reachable s \<Longrightarrow> reachable (mouse_drag x0 xs s)"
    by (simp add: mouse_drag_def reachable.mouse_down)
qed

text \<open>Moves at or to the right of the origin change nothing but \<open>moveX\<close>.\<close>

lemma moves_rightward_only:
  "isDragging s \<Longrightarrow> startX s = Some x0 \<Longrightarrow> \<forall>z\<in>set zs. x0 \<le> z \<Longrightarrow>
   currentTranslate (fold handleMouseMove zs s) = currentTranslate s \<and>
   delete_ready (item (fold handleMouseMove zs s)) = delete_ready (item s) \<and>
   style_transform (item (fold handleMouseMove zs s)) = style_transform (item s)"
proof (induction zs arbitrary: s)
  case Nil
  show ?case by simp
next
  case (Cons z zs)
  let ?s' = "handleMouseMove z s"
  have step: "?s' = s\<lparr>moveX := Some z\<rparr>"
    using Cons.prems by (simp add: handleMouseMove_dragging)
  have "isDragging ?s'" "startX ?s' = Some x0" "\<forall>z\<in>set zs. x0 \<le> z"
    using Cons.prems by simp_all
  from Cons.IH[OF this] show ?case by (simp add: step)
qed

text \<open>The last move left of the origin decides the offset and the class.\<close>

lemma moves_last_leftward:
  assumes "isDragging s" and "startX s = Some x0" and "x - x0 < 0" and "\<forall>z\<in>set zs. x0 \<le> z"
  shows "currentTranslate (fold handleMouseMove (ys @ x # zs) s) = x - x0 \<and>
   delete_ready (item (fold handleMouseMove (ys @ x # zs) s)) = (x - x0 < - 80) \<and>
   style_transform (item (fold handleMouseMove (ys @ x # zs) s)) = TranslateX_px (x - x0)"
proof -
  let ?m = "fold handleMouseMove ys s"
  have m: "isDragging ?m" "startX ?m = Some x0" using assms by simp_all
  let ?n = "handleMouseMove x ?m"
  have n: "?n = apply_translate (x - x0) (?m\<lparr>moveX := Some x\<rparr>)"
    using m assms(3) by (simp add: handleMouseMove_dragging)
  have n': "isDragging ?n" "startX ?n = Some x0" using m by simp_all
  from moves_rightward_only[OF n' assms(4)] show ?thesis
    by (simp add: n apply_translate_def)
qed

text \<open>A drag that ends below the commit threshold, from a start at or above it, has a
  move below the threshold after which every move is at or right of the origin.\<close>

lemma moves_commit_has_leftward:
  "isDragging s \<Longrightarrow> startX s = Some x0 \<Longrightarrow> - 100 \<le> currentTranslate s \<Longrightarrow>
   currentTranslate (fold handleMouseMove xs s) < - 100 \<Longrightarrow>
   \<exists>ys x zs. xs = ys @ x # zs \<and> x - x0 < - 100 \<and> (\<forall>z\<in>set zs. x0 \<le> z)"
proof (induction xs rule: rev_induct)
  case Nil
  then show ?case by simp
next
  case (snoc x xs)
  let ?m = "fold handleMouseMove xs s"
  have m: "isDragging ?m" "startX ?m = Some x0" using snoc.prems by simp_all
  show ?case
  proof (cases "x - x0 < 0")
    case True
    then have "currentTranslate (fold handleMouseMove (xs @ [x]) s) = x - x0"
      using m by (simp add: handleMouseMove_dragging apply_translate_def)
    with snoc.prems(4) have "x - x0 < - 100" by simp
    then have "xs @ [x] = xs @ x # [] \<and> x - x0 < - 100 \<and> (\<forall>z\<in>set []. x0 \<le> z)" by simp
    then show ?thesis by blast
  next
    case False
    then have "fold handleMouseMove (xs @ [x]) s = ?m\<lparr>moveX := Some x\<rparr>"
      using m by (simp add: handleMouseMove_dragging)
    with snoc.prems(4) have "currentTranslate ?m < - 100" by simp
    from snoc.IH[OF snoc.prems(1,2,3) this]
    obtain ys y zs where "xs = ys @ y # zs" "y - x0 < - 100" "\<forall>z\<in>set zs. x0 \<le> z" by blast
    with False
    have "xs @ [x] = ys @ y # (zs @ [x]) \<and> y - x0 < - 100 \<and> (\<forall>z\<in>set (zs @ [x]). x0 \<le> z)"
      by auto
    then show ?thesis by blast
  qed
qed

lemma drag_cases:
  assumes "drag = touch_drag x0 xs s \<or> drag = mouse_drag x0 xs s"
  obtains r where "drag = fold handleMouseMove xs r" and "isDragging r" and "startX r = Some x0"
    and "currentTranslate r = currentTranslate s" and "delete_ready (item r) = delete_ready (item s)"
    and "style_transform (item r) = style_transform (item s)"
    and "r = handleTouchStart x0 s \<or> r = handleMouseDown x0 s"
proof -
  from assms show ?thesis
  proof
    assume "drag = touch_drag x0 xs s"
    then have "drag = fold handleMouseMove xs (handleTouchStart x0 s)"
      by (simp add: touch_drag_moves)
    then show ?thesis by (rule that) simp_all
  next
    assume "drag = mouse_drag x0 xs s"
    then have "drag = fold handleMouseMove xs (handleMouseDown x0 s)"
      by (simp add: mouse_drag_def)
    then show ?thesis by (rule that) simp_all
  qed
qed

text \<open>
  Claim C4. Take any recognizer that can arise from a new one by handler calls, and any
  drag on it, by touch or by mouse. If the drag-end handler finds the commit condition
  \<open>currentTranslate < -100\<close>, the item shows the delete-ready class at that moment. If the
  recognizer was not left below the threshold by an earlier commit, there is a move of this
  very drag, more than 80 left of the origin, after which the class was on.
\<close>

theorem commit_needs_affordance:
  assumes "reachable s"
    and "drag = touch_drag x0 xs s \<or> drag = mouse_drag x0 xs s"
    and "currentTranslate drag < - 100"
  shows "delete_ready (item drag)
     \<and> (- 100 \<le> currentTranslate s \<longrightarrow>
          (\<exists>ys x zs. xs = ys @ x # zs \<and> x - x0 < - 80
             \<and> delete_ready (item (touch_drag x0 (ys @ [x]) s))
             \<and> delete_ready (item (mouse_drag x0 (ys @ [x]) s))))"
proof (intro conjI impI)
  have "reachable drag"
    using assms(1,2) reachable_touch_drag reachable_mouse_drag by auto
  then show "delete_ready (item drag)"
    using assms(3) reachable_commit_invariant[of drag] by (simp add: commit_invariant_def)
next
  assume above: "- 100 \<le> currentTranslate s"
  from assms(2) obtain r where r: "drag = fold handleMouseMove xs r" "isDragging r"
      "startX r = Some x0" "currentTranslate r = currentTranslate s"
    by (rule drag_cases)
  from moves_commit_has_leftward[OF r(2,3), of xs] above assms(3) r(1,4)
  obtain ys x zs where split: "xs = ys @ x # zs" "x - x0 < - 100" by auto
  have left: "x - x0 < 0" "x - x0 < - 80" using split(2) by simp_all
  have "delete_ready (item (fold handleMouseMove (ys @ x # []) (handleTouchStart x0 s)))"
    using moves_last_leftward[of "handleTouchStart x0 s" x0 x "[]" ys] left by simp
  moreover have "delete_ready (item (fold handleMouseMove (ys @ x # []) (handleMouseDown x0 s)))"
    using moves_last_leftward[of "handleMouseDown x0 s" x0 x "[]" ys] left by simp
  ultimately show "\<exists>ys x zs. xs = ys @ x # zs \<and> x - x0 < - 80
             \<and> delete_ready (item (touch_drag x0 (ys @ [x]) s))
             \<and> delete_ready (item (mouse_drag x0 (ys @ [x]) s))"
    using split(1) left(2) by (auto simp add: touch_drag_moves mouse_drag_def)
qed

theorem commit_needs_affordance_witness:
  "reachable (makeHistoryItemSwipeable item_a)
     \<and> dragged_a = touch_drag 200 [80] (makeHistoryItemSwipeable item_a)
     \<and> currentTranslate dragged_a < - 100
     \<and> - 100 \<le> currentTranslate (makeHistoryItemSwipeable item_a)
     \<and> delete_ready (item dragged_a)"
proof -
  have r: "reachable (makeHistoryItemSwipeable item_a)"
    by (rule reachable.created) (simp_all add: item_a_def new_item_def)
  have f: "dragged_a = touch_drag 200 [80] (makeHistoryItemSwipeable item_a)"
    by (simp add: dragged_a_def)
  then have d: "dragged_a = touch_drag 200 [80] (makeHistoryItemSwipeable item_a)
      \<or> dragged_a = mouse_drag 200 [80] (makeHistoryItemSwipeable item_a)"
    by (rule disjI1)
  have c: "currentTranslate dragged_a < - 100"
    by (simp add: dragged_a_fields)
  have e: "- 100 \<le> currentTranslate (makeHistoryItemSwipeable item_a)"
    by (simp add: makeHistoryItemSwipeable_def)
  have "delete_ready (item dragged_a)"
    using commit_needs_affordance[OF r d c] by (rule conjunct1)
  with r f c e show ?thesis by (intro conjI)
qed

text \<open>Every recognizer that can arise satisfies the second invariant as well.\<close>

lemma reachable_rest_invariant: "reachable s \<Longrightarrow> rest_invariant s"
proof (induction rule: reachable.induct)
  case (created it)
  then show ?case
    by (simp add: rest_invariant_def at_rest_def)
next
  case (touch_start s x)
  show ?case by (simp add: rest_invariant_def)
next
  case (touch_move s x)
  then show ?case
    by (simp add: rest_invariant_def touch_is_mouse_move) (simp add: handleMouseMove_def)
next
  case (touch_end s pg)
  show ?case
    by (simp add: rest_invariant_def at_rest_def handleTouchEnd_def reset_position_def Let_def
        split: prod.splits)
next
  case (mouse_down s x)
  show ?case by (simp add: rest_invariant_def)
next
  case (mouse_move s x)
  then show ?case
    by (simp add: rest_invariant_def) (simp add: handleMouseMove_def)
next
  case (mouse_up s pg)
  then show ?case
    by (simp add: rest_invariant_def at_rest_def handleMouseUp_def reset_position_def Let_def
        split: prod.splits)
qed

lemma rightward_drag_from_rest:
  assumes "currentTranslate s = 0" and "\<not> delete_ready (item s)"
    and "style_transform (item s) \<in> {TransformUnset, TranslateX_zero}"
    and "\<forall>x\<in>set xs. x0 \<le> x"
    and "drag = touch_drag x0 (take n xs) s \<or> drag = mouse_drag x0 (take n xs) s"
    and "whole = touch_drag x0 xs s \<or> whole = mouse_drag x0 xs s"
  shows "currentTranslate drag = 0
     \<and> style_transform (item drag) \<in> {TransformUnset, TranslateX_zero}
     \<and> \<not> delete_ready (item drag)
     \<and> snd (handleTouchEnd (whole, pg)) = pg
     \<and> snd (handleMouseUp (whole, pg)) = pg
     \<and> style_transform (item (fst (handleTouchEnd (whole, pg)))) = TranslateX_zero
     \<and> style_transform (item (fst (handleMouseUp (whole, pg)))) = TranslateX_zero
     \<and> \<not> delete_ready (item (fst (handleTouchEnd (whole, pg))))
     \<and> \<not> delete_ready (item (fst (handleMouseUp (whole, pg))))"
proof -
  have right: "\<forall>x\<in>set (take n xs). x0 \<le> x"
    using assms(4) by (auto dest: in_set_takeD)
  from assms(5) obtain r where r: "drag = fold handleMouseMove (take n xs) r" "isDragging r"
      "startX r = Some x0" "currentTranslate r = currentTranslate s"
      "delete_ready (item r) = delete_ready (item s)"
      "style_transform (item r) = style_transform (item s)"
    by (rule drag_cases)
  have during: "currentTranslate drag = 0"
    "style_transform (item drag) \<in> {TransformUnset, TranslateX_zero}"
    "\<not> delete_ready (item drag)"
    using moves_rightward_only[OF r(2,3) right] r(1,4,5,6) assms(1,2,3) by simp_all
  from assms(6) obtain w where w: "whole = fold handleMouseMove xs w" "isDragging w"
      "startX w = Some x0" "currentTranslate w = currentTranslate s"
    by (rule drag_cases)
  have zero: "currentTranslate whole = 0"
    using moves_rightward_only[OF w(2,3) assms(4)] w(1,4) assms(1) by simp
  have dragging: "isDragging whole"
    using w(1,2) by simp
  have no_commit: "\<not> currentTranslate whole < - 100"
    using zero by simp
  show ?thesis
    using during handleTouchEnd_revert[OF no_commit, of pg]
      handleMouseUp_revert[OF no_commit, of pg] dragging
    by simp
qed

text \<open>
  Claim C5, as the code has it. A drag-start does not reset the offset variable, so the
  clamp holds for a drag that starts at rest. Take a recognizer that can arise, with no
  drag going on and not left below the commit threshold by an earlier commit, and a drag on
  it, by touch or by mouse, whose moves are all at or right of the origin. At every point of the drag (after any number
  \<open>n\<close> of its moves) the offset variable is 0, the item is not translated and the
  delete-ready class is off. The drag-end handler then takes the revert branch: it leaves
  the page, and so the store, exactly as it was and sets the transform to
  \<open>translateX(0)\<close>.
\<close>

theorem rightward_drag_is_clamped:
  assumes "reachable s" and "\<not> isDragging s" and "- 100 \<le> currentTranslate s"
    and "\<forall>x\<in>set xs. x0 \<le> x"
    and "drag = touch_drag x0 (take n xs) s \<or> drag = mouse_drag x0 (take n xs) s"
    and "whole = touch_drag x0 xs s \<or> whole = mouse_drag x0 xs s"
  shows "currentTranslate drag = 0
     \<and> style_transform (item drag) \<in> {TransformUnset, TranslateX_zero}
     \<and> \<not> delete_ready (item drag)
     \<and> snd (handleTouchEnd (whole, pg)) = pg
     \<and> snd (handleMouseUp (whole, pg)) = pg
     \<and> style_transform (item (fst (handleTouchEnd (whole, pg)))) = TranslateX_zero
     \<and> style_transform (item (fst (handleMouseUp (whole, pg)))) = TranslateX_zero
     \<and> \<not> delete_ready (item (fst (handleTouchEnd (whole, pg))))
     \<and> \<not> delete_ready (item (fst (handleMouseUp (whole, pg))))"
proof -
  have "at_rest s"
    using reachable_rest_invariant[OF assms(1)] assms(2,3) by (simp add: rest_invariant_def)
  then have rest: "currentTranslate s = 0" "\<not> delete_ready (item s)"
    "style_transform (item s) \<in> {TransformUnset, TranslateX_zero}"
    by (simp_all add: at_rest_def)
  show ?thesis
    by (rule rightward_drag_from_rest[OF rest assms(4,5,6)])
qed

lemma item_a_at_rest:
  "currentTranslate (makeHistoryItemSwipeable item_a) = 0"
  "\<not> delete_ready (item (makeHistoryItemSwipeable item_a))"
  "style_transform (item (makeHistoryItemSwipeable item_a)) = TransformUnset"
  by (simp_all add: makeHistoryItemSwipeable_def item_a_def new_item_def)

theorem rightward_drag_is_clamped_witness:
  "reachable (makeHistoryItemSwipeable item_a)
     \<and> \<not> isDragging (makeHistoryItemSwipeable item_a)
     \<and> - 100 \<le> currentTranslate (makeHistoryItemSwipeable item_a)
     \<and> (200::int) \<le> 230 \<and> (200::int) \<le> 260
     \<and> currentTranslate (touch_drag 200 (take 1 [230, 260]) (makeHistoryItemSwipeable item_a)) = 0
     \<and> \<not> delete_ready
           (item (touch_drag 200 (take 1 [230, 260]) (makeHistoryItemSwipeable item_a)))
     \<and> snd (handleTouchEnd
              (touch_drag 200 [230, 260] (makeHistoryItemSwipeable item_a), two_event_page))
         = two_event_page"
proof -
  have r: "reachable (makeHistoryItemSwipeable item_a)"
    by (rule reachable.created) (simp_all add: item_a_def new_item_def)
  have idle: "\<not> isDragging (makeHistoryItemSwipeable item_a)"
    and above: "- 100 \<le> currentTranslate (makeHistoryItemSwipeable item_a)"
    by simp_all
  have right: "\<forall>x\<in>set [230, 260]. (200::int) \<le> x" by simp
  have d: "touch_drag 200 (take 1 [230, 260]) (makeHistoryItemSwipeable item_a)
        = touch_drag 200 (take 1 [230, 260]) (makeHistoryItemSwipeable item_a)
      \<or> touch_drag 200 (take 1 [230, 260]) (makeHistoryItemSwipeable item_a)
        = mouse_drag 200 (take 1 [230, 260]) (makeHistoryItemSwipeable item_a)"
    by simp
  have w: "touch_drag 200 [230, 260] (makeHistoryItemSwipeable item_a)
        = touch_drag 200 [230, 260] (makeHistoryItemSwipeable item_a)
      \<or> touch_drag 200 [230, 260] (makeHistoryItemSwipeable item_a)
        = mouse_drag 200 [230, 260] (makeHistoryItemSwipeable item_a)"
    by simp
  note clamped = rightward_drag_is_clamped[OF r idle above right d w, of two_event_page]
  have "currentTranslate (touch_drag 200 (take 1 [230, 260]) (makeHistoryItemSwipeable item_a)) = 0"
    by (rule clamped[THEN conjunct1])
  moreover have "\<not> delete_ready
      (item (touch_drag 200 (take 1 [230, 260]) (makeHistoryItemSwipeable item_a)))"
    by (rule clamped[THEN conjunct2, THEN conjunct2, THEN conjunct1])
  moreover have "snd (handleTouchEnd
      (touch_drag 200 [230, 260] (makeHistoryItemSwipeable item_a), two_event_page))
      = two_event_page"
    by (rule clamped[THEN conjunct2, THEN conjunct2, THEN conjunct2, THEN conjunct1])
  ultimately show ?thesis
    using r idle above by simp
qed

text \<open>
  The claim as the specification states it fails for a drag-start on a recognizer that
  still carries an offset. After a touch drag from 200 to 80 that has not ended (no touch
  end has come, and nothing listens for a cancelled touch), a touch start at 50 followed by
  moves to 60 and 70, both right of the new origin, leaves the offset at -120 and the
  delete-ready class on; the touch end then deletes the event of the item.
\<close>

theorem rightward_drag_counterexample:
  "reachable dragged_a
     \<and> currentTranslate dragged_a = - 120
     \<and> (50::int) \<le> 60 \<and> (50::int) \<le> 70
     \<and> currentTranslate (touch_drag 50 [60, 70] dragged_a) = - 120
     \<and> delete_ready (item (touch_drag 50 [60, 70] dragged_a))
     \<and> events two_event_page = [event_a, event_b]
     \<and> events (snd (handleTouchEnd (touch_drag 50 [60, 70] dragged_a, two_event_page)))
          = [event_b]"
proof -
  have "reachable (makeHistoryItemSwipeable item_a)"
    by (rule reachable.created) (simp_all add: item_a_def new_item_def)
  then have r: "reachable dragged_a"
    unfolding dragged_a_def by (rule reachable_touch_drag)
  have start: "isDragging (handleTouchStart 50 dragged_a)"
    "startX (handleTouchStart 50 dragged_a) = Some 50"
    by simp_all
  have right: "\<forall>z\<in>set [60, 70]. (50::int) \<le> z" by simp
  have kept: "currentTranslate (touch_drag 50 [60, 70] dragged_a) = - 120"
    "delete_ready (item (touch_drag 50 [60, 70] dragged_a))"
    using moves_rightward_only[OF start right]
    by (simp_all add: touch_drag_moves dragged_a_fields)
  have commit: "currentTranslate (touch_drag 50 [60, 70] dragged_a) < - 100"
    by (simp add: kept(1))
  have id: "item_eventId (item (touch_drag 50 [60, 70] dragged_a)) = Some 1000"
    using item_shows[OF dragged_a_fields(2)] by (simp add: item_eventId_def)
  have deleted: "events (snd (handleTouchEnd (touch_drag 50 [60, 70] dragged_a, two_event_page)))
      = [event_b]"
    by (simp add: handleTouchEnd_commit[OF commit] deleteHistoryItem_events id)
  have "(50::int) \<le> 60" "(50::int) \<le> 70" by simp_all
  with r dragged_a_fields(1) kept two_event_page_events deleted
  show ?thesis by (intro conjI)
qed

section \<open>A second drag-start\<close>

text \<open>
  Claim C6, as the code has it. Neither drag-start handler tests \<open>isDragging\<close>. On a
  recognizer that is dragging, a further touch start or mouse down overwrites the origin
  \<open>startX\<close> with the coordinate of the new event and sets the transition to \<open>none\<close> again
  (the mouse handler also leaves its document listeners registered); everything else of the
  session stays: \<open>isDragging\<close>, \<open>moveX\<close>, \<open>currentTranslate\<close>, the transform and the class.
\<close>

theorem second_drag_start_moves_origin:
  assumes "isDragging s"
  shows "handleTouchStart x s
           = s\<lparr>startX := Some x, item := (item s)\<lparr>style_transition := TransitionNone\<rparr>\<rparr>
     \<and> handleMouseDown x s
           = s\<lparr>startX := Some x, item := (item s)\<lparr>style_transition := TransitionNone\<rparr>,
                documentListeners := True\<rparr>
     \<and> startX (handleTouchStart x s) = Some x
     \<and> startX (handleMouseDown x s) = Some x
     \<and> isDragging (handleTouchStart x s) \<and> isDragging (handleMouseDown x s)
     \<and> currentTranslate (handleTouchStart x s) = currentTranslate s
     \<and> currentTranslate (handleMouseDown x s) = currentTranslate s
     \<and> style_transform (item (handleTouchStart x s)) = style_transform (item s)
     \<and> style_transform (item (handleMouseDown x s)) = style_transform (item s)
     \<and> delete_ready (item (handleTouchStart x s)) = delete_ready (item s)
     \<and> delete_ready (item (handleMouseDown x s)) = delete_ready (item s)"
  using assms by (simp add: handleTouchStart_def handleMouseDown_def)

theorem second_drag_start_moves_origin_witness:
  "isDragging (handleMouseDown 200 (makeHistoryItemSwipeable item_a))
     \<and> startX (handleMouseDown 50 (handleMouseDown 200 (makeHistoryItemSwipeable item_a)))
         = Some 50
     \<and> currentTranslate (handleMouseDown 50 (handleMouseDown 200 (makeHistoryItemSwipeable item_a)))
         = 0"
  using second_drag_start_moves_origin[of "handleMouseDown 200 (makeHistoryItemSwipeable item_a)" 50]
  by (simp add: item_a_at_rest)

text \<open>
  The claim as the specification states it fails: a mouse down at 50 during a drag that
  started at 200 moves the origin to 50, and so does a touch start. With the origin moved,
  the drag ends differently: a touch drag from 200 over 150 to 60 ends at an offset of
  -140, a commit, but with a second touch start at 150 in between it ends at -90, a revert.
\<close>

theorem second_drag_start_counterexample:
  "isDragging (handleMouseDown 200 (makeHistoryItemSwipeable item_a))
     \<and> startX (handleMouseDown 200 (makeHistoryItemSwipeable item_a)) = Some 200
     \<and> startX (handleMouseDown 50 (handleMouseDown 200 (makeHistoryItemSwipeable item_a)))
         = Some 50
     \<and> startX (handleTouchStart 50 (handleTouchStart 200 (makeHistoryItemSwipeable item_a)))
         = Some 50
     \<and> currentTranslate (touch_drag 200 [150, 60] (makeHistoryItemSwipeable item_a)) = - 140
     \<and> currentTranslate
           (fst (handleTouchMove 60
             (handleTouchStart 150 (touch_drag 200 [150] (makeHistoryItemSwipeable item_a)))))
         = - 90"
  by (simp add: touch_drag_def handleTouchMove_def handleTouchStart_def handleMouseDown_def
      makeHistoryItemSwipeable_def diffX_def apply_translate_def Let_def)

section \<open>The offset that decides\<close>

text \<open>
  Claim C10. In a drag, by touch or by mouse, whose last move left of the origin is at
  \<open>x\<close> and is followed only by moves at or right of the origin, the drag-end handler
  finds \<open>currentTranslate = x - x0\<close>, whatever the final position of the pointer. If that
  is below -100 both drag-end handlers delete: the page they leave is the one
  \<open>deleteHistoryItem\<close> leaves, without the events of the item's identifier.
\<close>

theorem last_leftward_move_decides:
  assumes "x - x0 < 0" and "\<forall>z\<in>set zs. x0 \<le> z"
    and "drag = touch_drag x0 (ys @ x # zs) s \<or> drag = mouse_drag x0 (ys @ x # zs) s"
  shows "currentTranslate drag = x - x0
     \<and> (x - x0 < - 100 \<longrightarrow>
          snd (handleTouchEnd (drag, pg))
            = snd (deleteHistoryItem ((item drag)\<lparr>style_transition := TransitionTransformEase\<rparr>, pg))
        \<and> snd (handleMouseUp (drag, pg))
            = snd (deleteHistoryItem ((item drag)\<lparr>style_transition := TransitionTransformEase\<rparr>, pg))
        \<and> events (snd (handleTouchEnd (drag, pg)))
            = filter (\<lambda>ev. Some (event_id ev) \<noteq> item_eventId (item s)) (events pg)
        \<and> events (snd (handleMouseUp (drag, pg)))
            = filter (\<lambda>ev. Some (event_id ev) \<noteq> item_eventId (item s)) (events pg))"
proof -
  from assms(3) obtain r where r: "drag = fold handleMouseMove (ys @ x # zs) r" "isDragging r"
      "startX r = Some x0" "r = handleTouchStart x0 s \<or> r = handleMouseDown x0 s"
    by (rule drag_cases)
  have offset: "currentTranslate drag = x - x0"
    using moves_last_leftward[OF r(2,3) assms(1,2), of ys] r(1) by simp
  have dragging: "isDragging drag"
    using r(1,2) by simp
  have "dataset_id (item drag) = dataset_id (item s)"
    using r(1,4) by auto
  then have same_id: "item_eventId (item drag) = item_eventId (item s)"
    by (simp add: item_eventId_def)
  show ?thesis
  proof (intro conjI impI)
    show "currentTranslate drag = x - x0" by (rule offset)
  next
    assume "x - x0 < - 100"
    then have commit: "currentTranslate drag < - 100" using offset by simp
    show "snd (handleTouchEnd (drag, pg))
        = snd (deleteHistoryItem ((item drag)\<lparr>style_transition := TransitionTransformEase\<rparr>, pg))"
      by (rule handleTouchEnd_commit[OF commit])
    show "snd (handleMouseUp (drag, pg))
        = snd (deleteHistoryItem ((item drag)\<lparr>style_transition := TransitionTransformEase\<rparr>, pg))"
      by (rule handleMouseUp_commit[OF commit dragging])
    show "events (snd (handleTouchEnd (drag, pg)))
        = filter (\<lambda>ev. Some (event_id ev) \<noteq> item_eventId (item s)) (events pg)"
      by (simp add: handleTouchEnd_commit[OF commit] deleteHistoryItem_events same_id)
    show "events (snd (handleMouseUp (drag, pg)))
        = filter (\<lambda>ev. Some (event_id ev) \<noteq> item_eventId (item s)) (events pg)"
      by (simp add: handleMouseUp_commit[OF commit dragging] deleteHistoryItem_events same_id)
  qed
qed

theorem last_leftward_move_decides_witness:
  "(80::int) - 200 < 0 \<and> (200::int) \<le> 250 \<and> (80::int) - 200 < - 100
     \<and> returned_a = mouse_drag 200 ([] @ 80 # [250]) (makeHistoryItemSwipeable item_a)
     \<and> moveX returned_a = Some 250
     \<and> currentTranslate returned_a = - 120
     \<and> events (snd (handleMouseUp (returned_a, two_event_page))) = [event_b]"
proof -
  have left: "(80::int) - 200 < 0" by simp
  have right: "\<forall>z\<in>set [250]. (200::int) \<le> z" by simp
  have r: "returned_a = mouse_drag 200 ([] @ 80 # [250]) (makeHistoryItemSwipeable item_a)"
    by (simp add: returned_a_def)
  then have d: "returned_a = touch_drag 200 ([] @ 80 # [250]) (makeHistoryItemSwipeable item_a)
      \<or> returned_a = mouse_drag 200 ([] @ 80 # [250]) (makeHistoryItemSwipeable item_a)"
    by (rule disjI2)
  have m: "moveX returned_a = Some 250"
    by (simp add: returned_a_def mouse_drag_def handleMouseMove_def handleMouseDown_def
        makeHistoryItemSwipeable_def diffX_def apply_translate_def Let_def)
  have id: "item_eventId (item (makeHistoryItemSwipeable item_a)) = Some 1000"
    by simp
  have below: "(80::int) - 200 < - 100" by simp
  note decided = last_leftward_move_decides[OF left right d, of two_event_page]
  have offset: "currentTranslate returned_a = - 120"
    using decided[THEN conjunct1] by simp
  have "events (snd (handleMouseUp (returned_a, two_event_page)))
      = filter (\<lambda>ev. Some (event_id ev) \<noteq> item_eventId (item (makeHistoryItemSwipeable item_a)))
          (events two_event_page)"
    by (rule decided[THEN conjunct2, THEN mp, OF below, THEN conjunct2, THEN conjunct2,
          THEN conjunct2])
  then have deleted: "events (snd (handleMouseUp (returned_a, two_event_page))) = [event_b]"
    by (simp add: id)
  from offset deleted
  show ?thesis using r m by simp
qed

section \<open>Identifiers of captured events\<close>

lemma fold_click_events:
  assumes "stream pg = Some m"
  shows "events (fold eventButton_click cs pg) = events pg @ map make_event cs
     \<and> stream (fold eventButton_click cs pg) = Some m"
  using assms
proof (induction cs arbitrary: pg)
  case Nil
  then show ?case by simp
next
  case (Cons c cs)
  have "stream (eventButton_click c pg) = Some m"
    using Cons.prems by (rule eventButton_click_events)
  from Cons.IH[OF this] show ?case
    by (simp add: eventButton_click_events(1)[OF Cons.prems])
qed

lemma fold_script_click_events:
  assumes "stream pg = Some m"
  shows "events (fold (\<lambda>c p. snd (script_eventButton_click c p)) cs pg)
           = events pg @ map make_event cs
     \<and> stream (fold (\<lambda>c p. snd (script_eventButton_click c p)) cs pg) = Some m"
  using assms
proof (induction cs arbitrary: pg)
  case Nil
  then show ?case by simp
next
  case (Cons c cs)
  have "stream (snd (script_eventButton_click c pg)) = Some m"
    using Cons.prems by (rule script_eventButton_click_events)
  from Cons.IH[OF this] show ?case
    by (simp add: script_eventButton_click_events(1)[OF Cons.prems])
qed

lemma make_event_ids: "map event_id (map make_event cs) = map capture_now cs"
  by (simp add: make_event_def)

lemma filter_keeps_increasing:
  assumes "sorted_wrt (<) (map event_id es)"
  shows "sorted_wrt (<) (map event_id (filter P es))"
  using assms by (simp add: sorted_wrt_map sorted_wrt_filter)

text \<open>
  Claim C7, as the code has it. A capture appends one event whose identifier is the clock
  reading \<open>Date.now()\<close> of that capture. If the identifiers in the store followed by the
  clock readings of a sequence of captures are strictly increasing, then after the
  captures, in either variant of the page, the identifiers in the store are exactly those,
  in that order: pairwise different and increasing. A deletion keeps, unchanged and in
  order, the events that the filter lets through, so the identifiers stay different and
  increasing.
\<close>

theorem capture_ids_follow_clock:
  assumes "stream pg = Some m"
    and "sorted_wrt (<) (map event_id (events pg) @ map capture_now cs)"
    and "after = fold eventButton_click cs pg
       \<or> after = fold (\<lambda>c p. snd (script_eventButton_click c p)) cs pg"
  shows "map event_id (events after) = map event_id (events pg) @ map capture_now cs
     \<and> distinct (map event_id (events after))
     \<and> sorted_wrt (<) (map event_id (events after))
     \<and> events (snd (deleteHistoryItem (it, after)))
          = filter (\<lambda>ev. Some (event_id ev) \<noteq> item_eventId it) (events after)
     \<and> distinct (map event_id (events (snd (deleteHistoryItem (it, after)))))
     \<and> sorted_wrt (<) (map event_id (events (snd (deleteHistoryItem (it, after)))))"
proof -
  have "events after = events pg @ map make_event cs"
    using assms(3) fold_click_events[OF assms(1), of cs]
      fold_script_click_events[OF assms(1), of cs]
    by auto
  then have ids: "map event_id (events after) = map event_id (events pg) @ map capture_now cs"
    using make_event_ids[of cs] by simp
  with assms(2) have increasing: "sorted_wrt (<) (map event_id (events after))"
    by simp
  then have different: "distinct (map event_id (events after))"
    by (simp add: strict_sorted_iff)
  let ?kept = "filter (\<lambda>ev. Some (event_id ev) \<noteq> item_eventId it) (events after)"
  have deleted: "events (snd (deleteHistoryItem (it, after))) = ?kept"
    by (rule deleteHistoryItem_events)
  have kept_increasing: "sorted_wrt (<) (map event_id ?kept)"
    using increasing by (rule filter_keeps_increasing)
  then have "distinct (map event_id ?kept)"
    by (simp add: strict_sorted_iff)
  with ids increasing different deleted kept_increasing show ?thesis
    by simp
qed

lemma sample_clock [simp]:
  "capture_now capture_a = 1000" "capture_now capture_b = 3000"
  "capture_now capture_a_again = 1000"
  by (simp_all add: capture_a_def capture_b_def capture_a_again_def)

theorem capture_ids_follow_clock_witness:
  "stream camera_page = Some MediaStream
     \<and> sorted_wrt (<) [1000, 3000 :: int]
     \<and> two_event_page = fold eventButton_click [capture_a, capture_b] camera_page
     \<and> map event_id (events two_event_page) = [1000, 3000]
     \<and> distinct (map event_id (events two_event_page))
     \<and> events (snd (deleteHistoryItem (item_a, two_event_page))) = [event_b]"
proof -
  have sorted: "sorted_wrt (<) (map event_id (events camera_page)
      @ map capture_now [capture_a, capture_b])"
    by (simp add: camera_page_events)
  have run: "two_event_page = fold eventButton_click [capture_a, capture_b] camera_page"
    by (simp add: two_event_page_def)
  then have either: "two_event_page = fold eventButton_click [capture_a, capture_b] camera_page
      \<or> two_event_page
        = fold (\<lambda>c p. snd (script_eventButton_click c p)) [capture_a, capture_b] camera_page"
    by (rule disjI1)
  note followed = capture_ids_follow_clock[OF camera_page_stream sorted either, of item_a]
  have ids: "map event_id (events two_event_page) = [1000, 3000]"
    using followed[THEN conjunct1] by (simp add: camera_page_events)
  have different: "distinct (map event_id (events two_event_page))"
    by (rule followed[THEN conjunct2, THEN conjunct1])
  have "sorted_wrt (<) [1000, 3000 :: int]" by simp
  with camera_page_stream run ids different once_deleted_events show ?thesis
    by (intro conjI)
qed

text \<open>
  The claim as the specification states it fails when two captures read the same clock
  value: the two events then carry the same identifier, and a swipe on the item of one of
  them deletes both. It also fails for the order when the clock is set back between two
  captures.
\<close>

theorem same_clock_reading_counterexample:
  "stream camera_page = Some MediaStream
     \<and> make_event capture_a_again \<noteq> make_event capture_a
     \<and> events (eventButton_click capture_a_again (eventButton_click capture_a camera_page))
         = [make_event capture_a, make_event capture_a_again]
     \<and> map event_id
           (events (eventButton_click capture_a_again (eventButton_click capture_a camera_page)))
         = [1000, 1000]
     \<and> \<not> distinct (map event_id
           (events (eventButton_click capture_a_again (eventButton_click capture_a camera_page))))
     \<and> events (snd (deleteHistoryItem (item_a,
           eventButton_click capture_a_again (eventButton_click capture_a camera_page)))) = []
     \<and> map event_id
           (events (eventButton_click capture_a (eventButton_click capture_b camera_page)))
         = [3000, 1000]"
proof -
  have first: "stream (eventButton_click capture_a camera_page) = Some MediaStream"
    "stream (eventButton_click capture_b camera_page) = Some MediaStream"
    using camera_page_stream by (simp_all add: eventButton_click_events)
  have twice: "events (eventButton_click capture_a_again (eventButton_click capture_a camera_page))
      = [make_event capture_a, make_event capture_a_again]"
    by (simp add: eventButton_click_events(1)[OF first(1)]
        eventButton_click_events(1)[OF camera_page_stream] camera_page_events)
  have reversed: "events (eventButton_click capture_a (eventButton_click capture_b camera_page))
      = [make_event capture_b, make_event capture_a]"
    by (simp add: eventButton_click_events(1)[OF first(2)]
        eventButton_click_events(1)[OF camera_page_stream] camera_page_events)
  have differ: "make_event capture_a_again \<noteq> make_event capture_a"
    by (simp add: make_event_def capture_a_again_def capture_a_def)
  have ids: "event_id (make_event capture_a) = 1000" "event_id (make_event capture_a_again) = 1000"
    "event_id (make_event capture_b) = 3000"
    by (simp_all add: make_event_def)
  have gone: "events (snd (deleteHistoryItem (item_a,
      eventButton_click capture_a_again (eventButton_click capture_a camera_page)))) = []"
    by (simp add: deleteHistoryItem_events twice ids)
  show ?thesis
    using camera_page_stream differ twice reversed gone by (simp add: ids)
qed

end
